theory Spec2Isabelle
  imports Main "HOL-Library.Word" "HOL-Library.AList"
begin

section \<open>The dictionary-compressed trace payload decoder (pkg/trace/pb/decoder.go)\<close>

text \<open>
  The decoder reads a MessagePack stream through \<^verbatim>\<open>msgp.Reader\<close> of the library
  \<^verbatim>\<open>github.com/tinylib/msgp\<close>. The library is not part of the repository; its reader is
  modelled here at the level of complete wire objects: the stream is the list of the
  objects still to be read, every object carries the type \<^verbatim>\<open>NextType\<close> reports for it,
  and reading past the end of the list is the stream error \<open>EOF\<close>. Integers are
  machine words: \<open>64 word\<close> stands for both \<^verbatim>\<open>int64\<close> (read with \<open>sint\<close>) and
  \<^verbatim>\<open>uint64\<close> (read with \<open>uint\<close>), so a Go conversion between the two is the
  identity on the word. Go's \<^verbatim>\<open>int\<close> is taken to be 64 bits wide (amd64, arm64).
\<close>

subsection \<open>Wire objects and the msgp reader\<close>

datatype msgp_Type =
    InvalidType | StrType | BinType | MapType | ArrayType | Float64Type | Float32Type
  | BoolType | IntType | UintType | NilType | ExtensionType | Complex64Type
  | Complex128Type | TimeType

text \<open>
  One constructor per kind of object on the wire. \<open>WInt\<close> is an integer in one of the
  signed encodings (fixint, negative fixint, int8 to int64), \<open>WUint\<close> one in an unsigned
  encoding (uint8 to uint64). \<open>'f\<close> is the type of \<^verbatim>\<open>float64\<close> values, left abstract.
  \<open>WInvalid\<close> is the reserved prefix byte.
\<close>

datatype 'f wire =
    WNil
  | WBool bool
  | WInt "64 word"
  | WUint "64 word"
  | WFloat32 'f
  | WFloat64 'f
  | WStr string
  | WBin string
  | WArray "32 word"
  | WMap "32 word"
  | WExt
  | WComplex64
  | WComplex128
  | WTime
  | WInvalid

type_synonym 'f reader = "'f wire list"

datatype error =
    EOF
  | InvalidPrefixError
  | TypeError msgp_Type msgp_Type   \<comment> \<open>\<^verbatim>\<open>msgp.TypeError{Method, Encoded}\<close>\<close>
  | UintOverflow "64 word" nat      \<comment> \<open>\<^verbatim>\<open>msgp.UintOverflow{Value, FailedBitsize}\<close>\<close>
  | IntOverflow "64 word" nat       \<comment> \<open>\<^verbatim>\<open>msgp.IntOverflow{Value, FailedBitsize}\<close>\<close>
  | UintBelowZero "64 word"
  | ErrDictIndex "64 word"          \<comment> \<open>"dictionary index %d out of place"\<close>
  | ErrInt64Overflow                \<comment> \<open>"found uint64, overflows int64"\<close>
  | ErrInt32Overflow                \<comment> \<open>"found uint32, overflows int32"\<close>
  | ErrDictValue nat                \<comment> \<open>"dictionary value at index %d has unsupported type"\<close>
  | ErrSpanArity                    \<comment> \<open>"encoded z needs exactly 12 elements in array"\<close>

text \<open>A Go run-time panic is not an error value: it unwinds the decoder.\<close>

datatype panic = IndexOutOfRangePanic | NilMapPanic

datatype 'a outcome = Return 'a | Panic panic

definition MaxInt64 :: "64 word" where "MaxInt64 = 0x7FFFFFFFFFFFFFFF"
definition MaxInt32 :: "32 word" where "MaxInt32 = 0x7FFFFFFF"
definition MaxUint32 :: "64 word" where "MaxUint32 = 0xFFFFFFFF"

text \<open>\<^verbatim>\<open>getType\<close>: the type read off the prefix byte alone.\<close>

fun getType :: "'f wire \<Rightarrow> msgp_Type" where
  "getType WNil = NilType"
| "getType (WBool b) = BoolType"
| "getType (WInt i) = IntType"
| "getType (WUint u) = UintType"
| "getType (WFloat32 f) = Float32Type"
| "getType (WFloat64 f) = Float64Type"
| "getType (WStr s) = StrType"
| "getType (WBin s) = BinType"
| "getType (WArray n) = ArrayType"
| "getType (WMap n) = MapType"
| "getType WExt = ExtensionType"
| "getType WComplex64 = ExtensionType"
| "getType WComplex128 = ExtensionType"
| "getType WTime = ExtensionType"
| "getType WInvalid = InvalidType"

definition badPrefix :: "msgp_Type \<Rightarrow> 'f wire \<Rightarrow> error" where
  "badPrefix want lead =
     (if getType lead = InvalidType then InvalidPrefixError
      else TypeError want (getType lead))"

text \<open>
  \<^verbatim>\<open>NextType\<close> peeks: it reports the type of the next object and consumes nothing.
  For an extension object it looks at the extension tag as well.
\<close>

fun NextType :: "'f reader \<Rightarrow> msgp_Type \<times> error option" where
  "NextType [] = (InvalidType, Some EOF)"
| "NextType (WInvalid # dc) = (InvalidType, Some InvalidPrefixError)"
| "NextType (WComplex64 # dc) = (Complex64Type, None)"
| "NextType (WComplex128 # dc) = (Complex128Type, None)"
| "NextType (WTime # dc) = (TimeType, None)"
| "NextType (w # dc) = (getType w, None)"

fun ReadArrayHeader :: "'f reader \<Rightarrow> 32 word \<times> error option \<times> 'f reader" where
  "ReadArrayHeader [] = (0, Some EOF, [])"
| "ReadArrayHeader (WArray n # dc) = (n, None, dc)"
| "ReadArrayHeader (w # dc) = (0, Some (badPrefix ArrayType w), w # dc)"

fun ReadMapHeader :: "'f reader \<Rightarrow> 32 word \<times> error option \<times> 'f reader" where
  "ReadMapHeader [] = (0, Some EOF, [])"
| "ReadMapHeader (WMap n # dc) = (n, None, dc)"
| "ReadMapHeader (w # dc) = (0, Some (badPrefix MapType w), w # dc)"

text \<open>
  \<^verbatim>\<open>ReadInt64\<close> and \<^verbatim>\<open>ReadUint64\<close> of msgp 1.1 accept either integer encoding and
  check the range of the other one.
\<close>

fun ReadInt64 :: "'f reader \<Rightarrow> 64 word \<times> error option \<times> 'f reader" where
  "ReadInt64 [] = (0, Some EOF, [])"
| "ReadInt64 (WInt i # dc) = (i, None, dc)"
| "ReadInt64 (WUint u # dc) =
     (if u > MaxInt64 then (0, Some (UintOverflow u 64), dc) else (u, None, dc))"
| "ReadInt64 (w # dc) = (0, Some (badPrefix IntType w), w # dc)"

fun ReadUint64 :: "'f reader \<Rightarrow> 64 word \<times> error option \<times> 'f reader" where
  "ReadUint64 [] = (0, Some EOF, [])"
| "ReadUint64 (WUint u # dc) = (u, None, dc)"
| "ReadUint64 (WInt i # dc) =
     (if sint i < 0 then (0, Some (UintBelowZero i), dc) else (i, None, dc))"
| "ReadUint64 (w # dc) = (0, Some (badPrefix UintType w), w # dc)"

text \<open>\<^verbatim>\<open>ReadInt\<close> on a 64-bit platform: \<^verbatim>\<open>ReadInt64\<close>, converted to \<^verbatim>\<open>int\<close>.\<close>

definition ReadInt :: "'f reader \<Rightarrow> 64 word \<times> error option \<times> 'f reader" where
  "ReadInt dc = ReadInt64 dc"

text \<open>
  \<^verbatim>\<open>ReadInt32\<close> and \<^verbatim>\<open>ReadUint32\<close> read 64 bits and check the range; the check is
  made on the value read even when the read failed (it is 0 then).
\<close>

definition ReadInt32 :: "'f reader \<Rightarrow> 32 word \<times> error option \<times> 'f reader" where
  "ReadInt32 dc =
     (case ReadInt64 dc of (i, err, dc') \<Rightarrow>
        if sint i > 2147483647 \<or> sint i < - 2147483648
        then (0, Some (IntOverflow i 32), dc')
        else (ucast i, err, dc'))"

definition ReadUint32 :: "'f reader \<Rightarrow> 32 word \<times> error option \<times> 'f reader" where
  "ReadUint32 dc =
     (case ReadUint64 dc of (u, err, dc') \<Rightarrow>
        if u > MaxUint32
        then (0, Some (UintOverflow u 32), dc')
        else (ucast u, err, dc'))"

fun ReadFloat64 :: "'f reader \<Rightarrow> 'f \<Rightarrow> 'f \<times> error option \<times> 'f reader" where
  "ReadFloat64 [] z = (z, Some EOF, [])"
| "ReadFloat64 (WFloat64 f # dc) z = (f, None, dc)"
| "ReadFloat64 (WFloat32 f # dc) z = (f, None, dc)"
| "ReadFloat64 (w # dc) z = (z, Some (badPrefix Float64Type w), w # dc)"

fun ReadBytes :: "'f reader \<Rightarrow> string \<times> error option \<times> 'f reader" where
  "ReadBytes [] = ([], Some EOF, [])"
| "ReadBytes (WBin s # dc) = (s, None, dc)"
| "ReadBytes (w # dc) = ([], Some (badPrefix BinType w), w # dc)"

fun ReadString :: "'f reader \<Rightarrow> string \<times> error option \<times> 'f reader" where
  "ReadString [] = ([], Some EOF, [])"
| "ReadString (WStr s # dc) = (s, None, dc)"
| "ReadString (w # dc) = ([], Some (badPrefix StrType w), w # dc)"

subsection \<open>Scalar decoders\<close>

text \<open>
  Every decoder returns the pair of Go results (value, error) together with the reader
  left behind. The value matters on failure too: the callers assign it to the span
  before they look at the error.
\<close>

text \<open>
  \<^verbatim>\<open>parseStringDict\<close>: the index is compared with the length of the dictionary only.
  A negative index passes the comparison, and \<^verbatim>\<open>dict[i]\<close> then panics in the run-time
  bounds check.
\<close>

definition parseStringDict ::
  "'f reader \<Rightarrow> string list \<Rightarrow> (string \<times> error option \<times> 'f reader) outcome" where
  "parseStringDict dc dict =
     (case ReadInt dc of (i, err, dc') \<Rightarrow>
        if sint i \<ge> int (length dict) then Return ([], Some (ErrDictIndex i), dc')
        else if sint i < 0 then Panic IndexOutOfRangePanic
        else Return (dict ! nat (sint i), err, dc'))"

record 'f float_ops =
  float64_of_int64 :: "64 word \<Rightarrow> 'f"
  float64_of_uint64 :: "64 word \<Rightarrow> 'f"
  float64_zero :: "'f"

definition parseFloat64 ::
  "'f float_ops \<Rightarrow> 'f reader \<Rightarrow> 'f \<times> error option \<times> 'f reader" where
  "parseFloat64 fo dc =
     (case NextType dc of
        (t, Some e) \<Rightarrow> (float64_zero fo, Some e, dc)
      | (t, None) \<Rightarrow>
          (case t of
             IntType \<Rightarrow>
               (case ReadInt64 dc of
                  (i, Some e, dc') \<Rightarrow> (float64_zero fo, Some e, dc')
                | (i, None, dc') \<Rightarrow> (float64_of_int64 fo i, None, dc'))
           | UintType \<Rightarrow>
               (case ReadUint64 dc of
                  (u, Some e, dc') \<Rightarrow> (float64_zero fo, Some e, dc')
                | (u, None, dc') \<Rightarrow> (float64_of_uint64 fo u, None, dc'))
           | Float64Type \<Rightarrow>
               (case ReadFloat64 dc (float64_zero fo) of
                  (f, Some e, dc') \<Rightarrow> (float64_zero fo, Some e, dc')
                | (f, None, dc') \<Rightarrow> (f, None, dc'))
           | _ \<Rightarrow> (float64_zero fo, Some (TypeError Float64Type t), dc)))"

definition castInt64 :: "64 word \<Rightarrow> 64 word \<times> bool" where
  "castInt64 v = (if v > MaxInt64 then (0, False) else (v, True))"

definition parseInt64 :: "'f reader \<Rightarrow> 64 word \<times> error option \<times> 'f reader" where
  "parseInt64 dc =
     (case NextType dc of
        (t, Some e) \<Rightarrow> (0, Some e, dc)
      | (t, None) \<Rightarrow>
          (case t of
             IntType \<Rightarrow>
               (case ReadInt64 dc of
                  (i, Some e, dc') \<Rightarrow> (0, Some e, dc')
                | (i, None, dc') \<Rightarrow> (i, None, dc'))
           | UintType \<Rightarrow>
               (case ReadUint64 dc of
                  (u, Some e, dc') \<Rightarrow> (0, Some e, dc')
                | (u, None, dc') \<Rightarrow>
                    (case castInt64 u of
                       (i, False) \<Rightarrow> (0, Some ErrInt64Overflow, dc')
                     | (i, True) \<Rightarrow> (i, None, dc')))
           | _ \<Rightarrow> (0, Some (TypeError IntType t), dc)))"

definition parseUint64 :: "'f reader \<Rightarrow> 64 word \<times> error option \<times> 'f reader" where
  "parseUint64 dc =
     (case NextType dc of
        (t, Some e) \<Rightarrow> (0, Some e, dc)
      | (t, None) \<Rightarrow>
          (case t of
             UintType \<Rightarrow>
               (case ReadUint64 dc of
                  (u, Some e, dc') \<Rightarrow> (0, Some e, dc')
                | (u, None, dc') \<Rightarrow> (u, None, dc'))
           | IntType \<Rightarrow>
               (case ReadInt64 dc of
                  (i, Some e, dc') \<Rightarrow> (0, Some e, dc')
                | (i, None, dc') \<Rightarrow> (i, None, dc'))
           | _ \<Rightarrow> (0, Some (TypeError IntType t), dc)))"

definition castInt32 :: "32 word \<Rightarrow> 32 word \<times> bool" where
  "castInt32 v = (if v > MaxInt32 then (0, False) else (v, True))"

definition parseInt32 :: "'f reader \<Rightarrow> 32 word \<times> error option \<times> 'f reader" where
  "parseInt32 dc =
     (case NextType dc of
        (t, Some e) \<Rightarrow> (0, Some e, dc)
      | (t, None) \<Rightarrow>
          (case t of
             IntType \<Rightarrow>
               (case ReadInt32 dc of
                  (i, Some e, dc') \<Rightarrow> (0, Some e, dc')
                | (i, None, dc') \<Rightarrow> (i, None, dc'))
           | UintType \<Rightarrow>
               (case ReadUint32 dc of
                  (u, Some e, dc') \<Rightarrow> (0, Some e, dc')
                | (u, None, dc') \<Rightarrow>
                    (case castInt32 u of
                       (i, False) \<Rightarrow> (0, Some ErrInt32Overflow, dc')
                     | (i, True) \<Rightarrow> (i, None, dc')))
           | _ \<Rightarrow> (0, Some (TypeError IntType t), dc)))"

subsection \<open>Spans and Go maps\<close>

text \<open>
  A Go map is an association list with distinct keys, or \<open>None\<close> for the nil map.
  Reading a nil map is allowed (it is empty), assigning into it panics.
\<close>

type_synonym ('k, 'v) gomap = "('k \<times> 'v) list option"

definition map_len :: "('k, 'v) gomap \<Rightarrow> nat" where
  "map_len m = (case m of None \<Rightarrow> 0 | Some kvs \<Rightarrow> length kvs)"

definition map_keys :: "('k, 'v) gomap \<Rightarrow> 'k list" where
  "map_keys m = (case m of None \<Rightarrow> [] | Some kvs \<Rightarrow> map fst kvs)"

definition map_delete :: "'k \<Rightarrow> ('k, 'v) gomap \<Rightarrow> ('k, 'v) gomap" where
  "map_delete k m = (case m of None \<Rightarrow> None | Some kvs \<Rightarrow> Some (AList.delete k kvs))"

definition map_assign :: "'k \<Rightarrow> 'v \<Rightarrow> ('k, 'v) gomap \<Rightarrow> ('k, 'v) gomap outcome" where
  "map_assign k v m =
     (case m of None \<Rightarrow> Panic NilMapPanic | Some kvs \<Rightarrow> Return (Some (AList.update k v kvs)))"

text \<open>\<^verbatim>\<open>for key := range m { delete(m, key) }\<close>\<close>

definition map_clear :: "('k, 'v) gomap \<Rightarrow> ('k, 'v) gomap" where
  "map_clear m = fold map_delete (map_keys m) m"

text \<open>The contents of a Go map as a partial function.\<close>

definition map_entries :: "('k, 'v) gomap \<Rightarrow> ('k \<rightharpoonup> 'v)" where
  "map_entries m = (case m of None \<Rightarrow> Map.empty | Some kvs \<Rightarrow> map_of kvs)"

record 'f Span =
  Service :: string
  Name :: string
  Resource :: string
  TraceID :: "64 word"
  SpanID :: "64 word"
  ParentID :: "64 word"
  Start :: "64 word"
  Duration :: "64 word"
  Error :: "32 word"
  Meta :: "(string, string) gomap"
  Metrics :: "(string, 'f) gomap"
  Type :: string

text \<open>\<^verbatim>\<open>new(Span)\<close>: every field has its zero value.\<close>

definition new_Span :: "'f Span" where
  "new_Span =
     \<lparr>Service = [], Name = [], Resource = [], TraceID = 0, SpanID = 0, ParentID = 0,
      Start = 0, Duration = 0, Error = 0, Meta = None, Metrics = None, Type = []\<rparr>"

subsection \<open>The span record decoder\<close>

text \<open>
  \<^verbatim>\<open>Span.DecodeMsgArray\<close> is twelve blocks in a row, one per field, each of the shape
  \<^verbatim>\<open>z.F, err = parse(...); if err != nil { return }\<close>. A block is a function from the
  reader and the span to the error, the span as the block leaves it and the reader; the
  decoder runs the blocks in order and returns at the first error or panic.
\<close>

type_synonym 'f step =
  "'f float_ops \<Rightarrow> 'f reader \<Rightarrow> string list \<Rightarrow> 'f Span
     \<Rightarrow> (error option \<times> 'f Span \<times> 'f reader) outcome"

definition field_Service :: "'f step" where
  "field_Service fo dc dictionary z =
     (case parseStringDict dc dictionary of
        Panic p \<Rightarrow> Panic p
      | Return (s, err, dc') \<Rightarrow> Return (err, z\<lparr>Service := s\<rparr>, dc'))"

definition field_Name :: "'f step" where
  "field_Name fo dc dictionary z =
     (case parseStringDict dc dictionary of
        Panic p \<Rightarrow> Panic p
      | Return (s, err, dc') \<Rightarrow> Return (err, z\<lparr>Name := s\<rparr>, dc'))"

definition field_Resource :: "'f step" where
  "field_Resource fo dc dictionary z =
     (case parseStringDict dc dictionary of
        Panic p \<Rightarrow> Panic p
      | Return (s, err, dc') \<Rightarrow> Return (err, z\<lparr>Resource := s\<rparr>, dc'))"

definition field_TraceID :: "'f step" where
  "field_TraceID fo dc dictionary z =
     (case parseUint64 dc of (v, err, dc') \<Rightarrow> Return (err, z\<lparr>TraceID := v\<rparr>, dc'))"

definition field_SpanID :: "'f step" where
  "field_SpanID fo dc dictionary z =
     (case parseUint64 dc of (v, err, dc') \<Rightarrow> Return (err, z\<lparr>SpanID := v\<rparr>, dc'))"

definition field_ParentID :: "'f step" where
  "field_ParentID fo dc dictionary z =
     (case parseUint64 dc of (v, err, dc') \<Rightarrow> Return (err, z\<lparr>ParentID := v\<rparr>, dc'))"

definition field_Start :: "'f step" where
  "field_Start fo dc dictionary z =
     (case parseInt64 dc of (v, err, dc') \<Rightarrow> Return (err, z\<lparr>Start := v\<rparr>, dc'))"

definition field_Duration :: "'f step" where
  "field_Duration fo dc dictionary z =
     (case parseInt64 dc of (v, err, dc') \<Rightarrow> Return (err, z\<lparr>Duration := v\<rparr>, dc'))"

definition field_Error :: "'f step" where
  "field_Error fo dc dictionary z =
     (case parseInt32 dc of (v, err, dc') \<Rightarrow> Return (err, z\<lparr>Error := v\<rparr>, dc'))"

text \<open>\<^verbatim>\<open>for metaSize > 0 { metaSize--; ... }\<close>, by recursion on the count left.\<close>

fun meta_loop ::
  "nat \<Rightarrow> 'f reader \<Rightarrow> string list \<Rightarrow> 'f Span
     \<Rightarrow> (error option \<times> 'f Span \<times> 'f reader) outcome" where
  "meta_loop 0 dc dictionary z = Return (None, z, dc)"
| "meta_loop (Suc metaSize) dc dictionary z =
     (case parseStringDict dc dictionary of
        Panic p \<Rightarrow> Panic p
      | Return (zxvk, Some e, dc1) \<Rightarrow> Return (Some e, z, dc1)
      | Return (zxvk, None, dc1) \<Rightarrow>
          (case parseStringDict dc1 dictionary of
             Panic p \<Rightarrow> Panic p
           | Return (zbzg, Some e, dc2) \<Rightarrow> Return (Some e, z, dc2)
           | Return (zbzg, None, dc2) \<Rightarrow>
               (case map_assign zxvk zbzg (Meta z) of
                  Panic p \<Rightarrow> Panic p
                | Return m \<Rightarrow> meta_loop metaSize dc2 dictionary (z\<lparr>Meta := m\<rparr>))))"

definition field_Meta :: "'f step" where
  "field_Meta fo dc dictionary z =
     (case ReadMapHeader dc of
        (metaSize, Some e, dc') \<Rightarrow> Return (Some e, z, dc')
      | (metaSize, None, dc') \<Rightarrow>
          meta_loop (unat metaSize) dc' dictionary
            (if Meta z = None \<and> metaSize > 0 then z\<lparr>Meta := Some []\<rparr>
             else if map_len (Meta z) > 0 then z\<lparr>Meta := map_clear (Meta z)\<rparr>
             else z))"

fun metrics_loop ::
  "'f float_ops \<Rightarrow> nat \<Rightarrow> 'f reader \<Rightarrow> string list \<Rightarrow> 'f Span
     \<Rightarrow> (error option \<times> 'f Span \<times> 'f reader) outcome" where
  "metrics_loop fo 0 dc dictionary z = Return (None, z, dc)"
| "metrics_loop fo (Suc metricsSize) dc dictionary z =
     (case parseStringDict dc dictionary of
        Panic p \<Rightarrow> Panic p
      | Return (zbai, Some e, dc1) \<Rightarrow> Return (Some e, z, dc1)
      | Return (zbai, None, dc1) \<Rightarrow>
          (case parseFloat64 fo dc1 of
             (zcmr, Some e, dc2) \<Rightarrow> Return (Some e, z, dc2)
           | (zcmr, None, dc2) \<Rightarrow>
               (case map_assign zbai zcmr (Metrics z) of
                  Panic p \<Rightarrow> Panic p
                | Return m \<Rightarrow> metrics_loop fo metricsSize dc2 dictionary (z\<lparr>Metrics := m\<rparr>))))"

definition field_Metrics :: "'f step" where
  "field_Metrics fo dc dictionary z =
     (case ReadMapHeader dc of
        (metricsSize, Some e, dc') \<Rightarrow> Return (Some e, z, dc')
      | (metricsSize, None, dc') \<Rightarrow>
          metrics_loop fo (unat metricsSize) dc' dictionary
            (if Metrics z = None \<and> metricsSize > 0 then z\<lparr>Metrics := Some []\<rparr>
             else if map_len (Metrics z) > 0 then z\<lparr>Metrics := map_clear (Metrics z)\<rparr>
             else z))"

definition field_Type :: "'f step" where
  "field_Type fo dc dictionary z =
     (case parseStringDict dc dictionary of
        Panic p \<Rightarrow> Panic p
      | Return (s, err, dc') \<Rightarrow> Return (err, z\<lparr>Type := s\<rparr>, dc'))"

text \<open>The blocks in the order of the source; field \<open>k\<close> is the block at index \<open>k\<close>.\<close>

definition span_fields :: "'f step list" where
  "span_fields =
     [field_Service, field_Name, field_Resource, field_TraceID, field_SpanID,
      field_ParentID, field_Start, field_Duration, field_Error, field_Meta,
      field_Metrics, field_Type]"

fun run_fields ::
  "'f step list \<Rightarrow> 'f float_ops \<Rightarrow> 'f reader \<Rightarrow> string list \<Rightarrow> 'f Span
     \<Rightarrow> (error option \<times> 'f Span \<times> 'f reader) outcome" where
  "run_fields [] fo dc dictionary z = Return (None, z, dc)"
| "run_fields (f # fs) fo dc dictionary z =
     (case f fo dc dictionary z of
        Panic p \<Rightarrow> Panic p
      | Return (Some e, z', dc') \<Rightarrow> Return (Some e, z', dc')
      | Return (None, z', dc') \<Rightarrow> run_fields fs fo dc' dictionary z')"

definition spanPropertyCount :: "32 word" where
  "spanPropertyCount = 12"

definition Span_DecodeMsgArray :: "'f step" where
  "Span_DecodeMsgArray fo decoder dictionary z =
     (case ReadArrayHeader decoder of
        (xsz, Some e, dc) \<Rightarrow> Return (Some e, z, dc)
      | (xsz, None, dc) \<Rightarrow>
          if xsz \<noteq> spanPropertyCount then Return (Some ErrSpanArity, z, dc)
          else run_fields span_fields fo dc dictionary z)"

subsection \<open>The batch decoder\<close>

text \<open>
  A Go slice is its backing array from the slice's start up to the capacity, and a
  length. Slots of a trace are pointers to spans, \<open>None\<close> for nil; distinct slots are
  taken to point to distinct spans.
\<close>

record 'a slice =
  arr :: "'a list"
  len :: nat

definition cap :: "'a slice \<Rightarrow> nat" where
  "cap s = length (arr s)"

definition make_slice :: "'a \<Rightarrow> nat \<Rightarrow> 'a slice" where
  "make_slice zero n = \<lparr>arr = replicate n zero, len = n\<rparr>"

definition nil_slice :: "'a slice" where
  "nil_slice = \<lparr>arr = [], len = 0\<rparr>"

type_synonym 'f Trace = "'f Span option slice"
type_synonym 'f Traces = "'f Trace slice"

text \<open>
  The dictionary loop, \<^verbatim>\<open>for i := range dict\<close>, over the indices still to visit. In the
  nil case nothing is read: \<^verbatim>\<open>NextType\<close> only peeks, so the reader stays on the nil
  object.
\<close>

fun dict_loop ::
  "nat list \<Rightarrow> 'f reader \<Rightarrow> string list \<Rightarrow> error option \<times> string list \<times> 'f reader" where
  "dict_loop [] dc dict = (None, dict, dc)"
| "dict_loop (i # is) dc dict =
     (case NextType dc of
        (nextType, Some e) \<Rightarrow> (Some e, dict, dc)
      | (nextType, None) \<Rightarrow>
          (case nextType of
             NilType \<Rightarrow> dict_loop is dc (dict[i := []])
           | BinType \<Rightarrow>
               (case ReadBytes dc of
                  (bytes, Some e, dc') \<Rightarrow> (Some e, dict, dc')
                | (bytes, None, dc') \<Rightarrow> dict_loop is dc' (dict[i := bytes]))
           | StrType \<Rightarrow>
               (case ReadString dc of
                  (utf8, Some e, dc') \<Rightarrow> (Some e, dict, dc')
                | (utf8, None, dc') \<Rightarrow> dict_loop is dc' (dict[i := utf8]))
           | _ \<Rightarrow> (Some (ErrDictValue i), dict, dc)))"

text \<open>\<^verbatim>\<open>for hct := range (*z)[wht]\<close>\<close>

fun spans_loop ::
  "'f float_ops \<Rightarrow> nat list \<Rightarrow> 'f reader \<Rightarrow> string list \<Rightarrow> 'f Trace
     \<Rightarrow> (error option \<times> 'f Trace \<times> 'f reader) outcome" where
  "spans_loop fo [] dc dict t = Return (None, t, dc)"
| "spans_loop fo (hct # rest) dc dict t =
     (case Span_DecodeMsgArray fo dc dict
             (case arr t ! hct of None \<Rightarrow> new_Span | Some s \<Rightarrow> s) of
        Panic p \<Rightarrow> Panic p
      | Return (Some e, s', dc') \<Rightarrow> Return (Some e, t\<lparr>arr := (arr t)[hct := Some s']\<rparr>, dc')
      | Return (None, s', dc') \<Rightarrow>
          spans_loop fo rest dc' dict (t\<lparr>arr := (arr t)[hct := Some s']\<rparr>))"

text \<open>\<^verbatim>\<open>for wht := range *z\<close>\<close>

fun traces_loop ::
  "'f float_ops \<Rightarrow> nat list \<Rightarrow> 'f reader \<Rightarrow> string list \<Rightarrow> 'f Traces
     \<Rightarrow> (error option \<times> 'f Traces \<times> 'f reader) outcome" where
  "traces_loop fo [] dc dict z = Return (None, z, dc)"
| "traces_loop fo (wht # rest) dc dict z =
     (case ReadArrayHeader dc of
        (xsz, Some e, dc1) \<Rightarrow> Return (Some e, z, dc1)
      | (xsz, None, dc1) \<Rightarrow>
          (case spans_loop fo [0..<unat xsz] dc1 dict
                  (if cap (arr z ! wht) \<ge> unat xsz then (arr z ! wht)\<lparr>len := unat xsz\<rparr>
                   else make_slice None (unat xsz)) of
             Panic p \<Rightarrow> Panic p
           | Return (Some e, t, dc2) \<Rightarrow> Return (Some e, z\<lparr>arr := (arr z)[wht := t]\<rparr>, dc2)
           | Return (None, t, dc2) \<Rightarrow>
               traces_loop fo rest dc2 dict (z\<lparr>arr := (arr z)[wht := t]\<rparr>)))"

text \<open>
  \<^verbatim>\<open>Traces.DecodeMsgArray\<close>. The element count of the outermost array header is read
  and dropped (\<^verbatim>\<open>_, err := dc.ReadArrayHeader()\<close>).
\<close>

definition Traces_DecodeMsgArray ::
  "'f float_ops \<Rightarrow> 'f reader \<Rightarrow> 'f Traces
     \<Rightarrow> (error option \<times> 'f Traces \<times> 'f reader) outcome" where
  "Traces_DecodeMsgArray fo dc z =
     (case ReadArrayHeader dc of
        (n, Some e, dc1) \<Rightarrow> Return (Some e, z, dc1)
      | (n, None, dc1) \<Rightarrow>
          (case ReadArrayHeader dc1 of
             (sz, Some e, dc2) \<Rightarrow> Return (Some e, z, dc2)
           | (sz, None, dc2) \<Rightarrow>
               (case dict_loop [0..<unat sz] dc2 (replicate (unat sz) []) of
                  (Some e, dict, dc3) \<Rightarrow> Return (Some e, z, dc3)
                | (None, dict, dc3) \<Rightarrow>
                    (case ReadArrayHeader dc3 of
                       (xsz, Some e, dc4) \<Rightarrow> Return (Some e, z, dc4)
                     | (xsz, None, dc4) \<Rightarrow>
                         traces_loop fo [0..<unat xsz] dc4 dict
                           (if cap z \<ge> unat xsz then z\<lparr>len := unat xsz\<rparr>
                            else make_slice nil_slice (unat xsz))))))"

subsection \<open>Auxiliary definitions for the statements\<close>

text \<open>
  The errors that report an unsigned wire value too large for the signed target: the
  decoder's own two, and the library's overflow error of \<^verbatim>\<open>ReadUint32\<close>.
\<close>

fun overflow_error :: "error \<Rightarrow> bool" where
  "overflow_error ErrInt64Overflow = True"
| "overflow_error ErrInt32Overflow = True"
| "overflow_error (UintOverflow u b) = True"
| "overflow_error e = False"

text \<open>
  A stand-in for \<^verbatim>\<open>float64\<close> in the worked examples: integers, converted exactly.
  None of the examples decodes a number large enough to be rounded.
\<close>

definition int_float_ops :: "int float_ops" where
  "int_float_ops = \<lparr>float64_of_int64 = sint, float64_of_uint64 = uint, float64_zero = 0\<rparr>"

text \<open>
  Field \<open>k\<close> of the record, in wire order, has the same value in two spans.
\<close>

definition same_field :: "nat \<Rightarrow> 'f Span \<Rightarrow> 'f Span \<Rightarrow> bool" where
  "same_field k a b =
     (if k = 0 then Service a = Service b
      else if k = 1 then Name a = Name b
      else if k = 2 then Resource a = Resource b
      else if k = 3 then TraceID a = TraceID b
      else if k = 4 then SpanID a = SpanID b
      else if k = 5 then ParentID a = ParentID b
      else if k = 6 then Start a = Start b
      else if k = 7 then Duration a = Duration b
      else if k = 8 then Error a = Error b
      else if k = 9 then Meta a = Meta b
      else if k = 10 then Metrics a = Metrics b
      else if k = 11 then Type a = Type b
      else True)"

text \<open>
  What a scalar block leaves in its field when it returns an error: the zero value, or
  for a dictionary string also entry 0 of a non-empty dictionary (the index read itself
  failed, and the index variable is 0 then). Nothing is said of Meta and Metrics.
\<close>

definition failed_string :: "string list \<Rightarrow> string \<Rightarrow> bool" where
  "failed_string d s = (s = [] \<or> (d \<noteq> [] \<and> s = d ! 0))"

definition failed_field :: "nat \<Rightarrow> string list \<Rightarrow> 'f Span \<Rightarrow> bool" where
  "failed_field k d z =
     (if k = 0 then failed_string d (Service z)
      else if k = 1 then failed_string d (Name z)
      else if k = 2 then failed_string d (Resource z)
      else if k = 3 then TraceID z = 0
      else if k = 4 then SpanID z = 0
      else if k = 5 then ParentID z = 0
      else if k = 6 then Start z = 0
      else if k = 7 then Duration z = 0
      else if k = 8 then Error z = 0
      else if k = 11 then failed_string d (Type z)
      else True)"


text \<open>
  The string a wire object denotes when read as a dictionary index, and the number it
  denotes when read as a metric value, if any.
\<close>

definition dict_ref :: "string list \<Rightarrow> 'f wire \<Rightarrow> string option" where
  "dict_ref d w =
     (case parseStringDict [w] d of Return (s, None, dc') \<Rightarrow> Some s | _ \<Rightarrow> None)"

definition float_ref :: "'f float_ops \<Rightarrow> 'f wire \<Rightarrow> 'f option" where
  "float_ref fo w = (case parseFloat64 fo [w] of (f, None, dc') \<Rightarrow> Some f | _ \<Rightarrow> None)"

text \<open>
  The entries of a map on the wire: \<open>ps\<close> lists the pairs of wire objects after the
  map header, \<open>wire_pairs\<close> lays them out as they follow the header, and
  \<open>meta_pairs\<close>, \<open>metric_pairs\<close> resolve them to the key/value pairs they denote.
\<close>

fun meta_pairs :: "string list \<Rightarrow> ('f wire \<times> 'f wire) list \<Rightarrow> (string \<times> string) list option" where
  "meta_pairs d [] = Some []"
| "meta_pairs d ((a, b) # ps) =
     (case dict_ref d a of None \<Rightarrow> None | Some k \<Rightarrow>
      (case dict_ref d b of None \<Rightarrow> None | Some v \<Rightarrow>
       (case meta_pairs d ps of None \<Rightarrow> None | Some kvs \<Rightarrow> Some ((k, v) # kvs))))"

fun metric_pairs ::
  "'f float_ops \<Rightarrow> string list \<Rightarrow> ('f wire \<times> 'f wire) list \<Rightarrow> (string \<times> 'f) list option" where
  "metric_pairs fo d [] = Some []"
| "metric_pairs fo d ((a, b) # ps) =
     (case dict_ref d a of None \<Rightarrow> None | Some k \<Rightarrow>
      (case float_ref fo b of None \<Rightarrow> None | Some v \<Rightarrow>
       (case metric_pairs fo d ps of None \<Rightarrow> None | Some kvs \<Rightarrow> Some ((k, v) # kvs))))"

fun wire_pairs :: "('f wire \<times> 'f wire) list \<Rightarrow> 'f wire list" where
  "wire_pairs [] = []"
| "wire_pairs ((a, b) # ps) = a # b # wire_pairs ps"

text \<open>
  \<open>assign_all kvs m\<close> is the map after \<^verbatim>\<open>m[k] = v\<close> for each pair in order;
  \<open>refilled prior kvs\<close> is the destination map after a successful decode of the pairs
  \<open>kvs\<close>: built from no entries at all, and nil only if it was nil and there are no
  pairs.
\<close>

definition assign_all :: "('k \<times> 'v) list \<Rightarrow> ('k \<times> 'v) list \<Rightarrow> ('k \<times> 'v) list" where
  "assign_all kvs m = fold (\<lambda>(k, v). AList.update k v) kvs m"

definition refilled :: "('k, 'v) gomap \<Rightarrow> ('k \<times> 'v) list \<Rightarrow> ('k, 'v) gomap" where
  "refilled prior kvs = (if prior = None \<and> kvs = [] then None else Some (assign_all kvs []))"

text \<open>The elements of a slice: the first \<open>len\<close> cells of its backing array.\<close>

definition elems :: "'a slice \<Rightarrow> 'a list" where
  "elems s = take (len s) (arr s)"

text \<open>
  What a successfully decoded field holds, read off the wire independently of the field
  blocks. \<open>read_meta_pairs n dc d\<close> resolves the \<open>n\<close> key/value pairs that follow a map
  header at the front of \<open>dc\<close>, \<open>read_metric_pairs\<close> likewise with numeric values.
  \<open>decoded_field k fo dc d prior z\<close> says that field \<open>k\<close> of \<open>z\<close> is the value its scalar
  decoder returns, without error, on the reader \<open>dc\<close>; for Meta and Metrics, that it is
  the map of the pairs on the wire, refilled into the map of the span \<open>prior\<close>.
\<close>

fun read_meta_pairs ::
  "nat \<Rightarrow> 'f reader \<Rightarrow> string list \<Rightarrow> (string \<times> string) list option" where
  "read_meta_pairs 0 dc d = Some []"
| "read_meta_pairs (Suc n) (a # b # dc) d =
     (case dict_ref d a of None \<Rightarrow> None | Some k \<Rightarrow>
      (case dict_ref d b of None \<Rightarrow> None | Some v \<Rightarrow>
       (case read_meta_pairs n dc d of None \<Rightarrow> None | Some kvs \<Rightarrow> Some ((k, v) # kvs))))"
| "read_meta_pairs (Suc n) dc d = None"

fun read_metric_pairs ::
  "'f float_ops \<Rightarrow> nat \<Rightarrow> 'f reader \<Rightarrow> string list \<Rightarrow> (string \<times> 'f) list option" where
  "read_metric_pairs fo 0 dc d = Some []"
| "read_metric_pairs fo (Suc n) (a # b # dc) d =
     (case dict_ref d a of None \<Rightarrow> None | Some k \<Rightarrow>
      (case float_ref fo b of None \<Rightarrow> None | Some v \<Rightarrow>
       (case read_metric_pairs fo n dc d of None \<Rightarrow> None | Some kvs \<Rightarrow> Some ((k, v) # kvs))))"
| "read_metric_pairs fo (Suc n) dc d = None"

definition decoded_string :: "'f reader \<Rightarrow> string list \<Rightarrow> string \<Rightarrow> bool" where
  "decoded_string dc d s =
     (case parseStringDict dc d of Return (s', None, dc') \<Rightarrow> s = s' | _ \<Rightarrow> False)"

definition decoded_field ::
  "nat \<Rightarrow> 'f float_ops \<Rightarrow> 'f reader \<Rightarrow> string list \<Rightarrow> 'f Span \<Rightarrow> 'f Span \<Rightarrow> bool" where
  "decoded_field k fo dc d prior z =
     (if k = 0 then decoded_string dc d (Service z)
      else if k = 1 then decoded_string dc d (Name z)
      else if k = 2 then decoded_string dc d (Resource z)
      else if k = 3 then (case parseUint64 dc of (v, None, dc') \<Rightarrow> TraceID z = v | _ \<Rightarrow> False)
      else if k = 4 then (case parseUint64 dc of (v, None, dc') \<Rightarrow> SpanID z = v | _ \<Rightarrow> False)
      else if k = 5 then (case parseUint64 dc of (v, None, dc') \<Rightarrow> ParentID z = v | _ \<Rightarrow> False)
      else if k = 6 then (case parseInt64 dc of (v, None, dc') \<Rightarrow> Start z = v | _ \<Rightarrow> False)
      else if k = 7 then (case parseInt64 dc of (v, None, dc') \<Rightarrow> Duration z = v | _ \<Rightarrow> False)
      else if k = 8 then (case parseInt32 dc of (v, None, dc') \<Rightarrow> Error z = v | _ \<Rightarrow> False)
      else if k = 9 then
        (case dc of
           WMap n # rest \<Rightarrow>
             (case read_meta_pairs (unat n) rest d of
                Some kvs \<Rightarrow> Meta z = refilled (Meta prior) kvs
              | None \<Rightarrow> False)
         | _ \<Rightarrow> False)
      else if k = 10 then
        (case dc of
           WMap n # rest \<Rightarrow>
             (case read_metric_pairs fo (unat n) rest d of
                Some kvs \<Rightarrow> Metrics z = refilled (Metrics prior) kvs
              | None \<Rightarrow> False)
         | _ \<Rightarrow> False)
      else if k = 11 then decoded_string dc d (Type z)
      else True)"

text \<open>
  An integer on the wire in either encoding, and a string on the wire of either type.
\<close>

definition wint :: "bool \<Rightarrow> 64 word \<Rightarrow> 'f wire" where
  "wint u n = (if u then WUint n else WInt n)"

definition wstr :: "bool \<Rightarrow> string \<Rightarrow> 'f wire" where
  "wstr b s = (if b then WBin s else WStr s)"

section \<open>Properties\<close>

subsection \<open>Machine integer facts\<close>

lemma gt_MaxInt64: "(u > MaxInt64) = (uint u > 2 ^ 63 - 1)"
  by (simp add: MaxInt64_def word_less_def)

lemma gt_MaxUint32: "(u > MaxUint32) = (uint u > 2 ^ 32 - 1)"
  by (simp add: MaxUint32_def word_less_def)

lemma gt_MaxInt32: "(v > MaxInt32) = (uint v > 2 ^ 31 - 1)"
  by (simp add: MaxInt32_def word_less_def)

lemma sint_small64: "uint (u :: 64 word) \<le> 2 ^ 63 - 1 \<Longrightarrow> sint u = uint u"
proof -
  assume "uint u \<le> 2 ^ 63 - 1"
  moreover have "0 \<le> uint u" by simp
  ultimately have "- (2 ^ 63) \<le> uint u" "uint u < 2 ^ 63" by linarith+
  then have "signed_take_bit 63 (uint u) = uint u" by (rule signed_take_bit_int_eq_self)
  then show ?thesis by (simp add: sint_uint)
qed

lemma sint_small32: "uint (v :: 32 word) \<le> 2 ^ 31 - 1 \<Longrightarrow> sint v = uint v"
proof -
  assume "uint v \<le> 2 ^ 31 - 1"
  moreover have "0 \<le> uint v" by simp
  ultimately have "- (2 ^ 31) \<le> uint v" "uint v < 2 ^ 31" by linarith+
  then have "signed_take_bit 31 (uint v) = uint v" by (rule signed_take_bit_int_eq_self)
  then show ?thesis by (simp add: sint_uint)
qed

lemma uint_ucast32:
  "uint (u :: 64 word) \<le> 2 ^ 32 - 1 \<Longrightarrow> uint (ucast u :: 32 word) = uint u"
  by (simp add: unsigned_ucast_eq take_bit_int_eq_self)

subsection \<open>Scalar decoders\<close>

lemma parseInt64_WUint:
  "parseInt64 (WUint u # dc) =
     (if uint u > 2 ^ 63 - 1 then (0, Some ErrInt64Overflow, dc) else (u, None, dc))"
  by (simp add: parseInt64_def castInt64_def gt_MaxInt64)

lemma parseInt32_WUint:
  "parseInt32 (WUint u # dc) =
     (if uint u > 2 ^ 32 - 1 then (0, Some (UintOverflow u 32), dc)
      else if uint u > 2 ^ 31 - 1 then (0, Some ErrInt32Overflow, dc)
      else (ucast u, None, dc))"
  by (simp add: parseInt32_def ReadUint32_def castInt32_def gt_MaxUint32 gt_MaxInt32
      uint_ucast32)

lemma parseStringDict_negative:
  "sint i < 0 \<Longrightarrow> parseStringDict (WInt i # dc) dict = Panic IndexOutOfRangePanic"
  by (simp add: parseStringDict_def ReadInt_def)

lemma parseStringDict_read:
  assumes "ReadInt dc = (i, None, dc')" and "0 \<le> sint i"
  shows "parseStringDict dc dict =
           (if sint i < int (length dict) then Return (dict ! nat (sint i), None, dc')
            else Return ([], Some (ErrDictIndex i), dc'))"
  using assms by (simp add: parseStringDict_def)

text \<open>
  C1, as amended. For an index \<open>i\<close> on the wire that fits Go's \<open>int\<close>, that is a signed
  wire integer (taken non-negative here, the negative ones are C6) or an unsigned one up
  to \<open>2^63 - 1\<close>: if \<open>i < len(dict)\<close> the DictionaryString decoder returns \<open>dict[i]\<close>
  and no error, and if \<open>i \<ge> len(dict)\<close> it fails with the index-out-of-range error. An
  unsigned wire index above \<open>2^63 - 1\<close> does not fit: the integer read fails with the
  library's overflow error and leaves the index variable 0, so the decoder returns
  \<open>dict[0]\<close> together with that overflow error, or the index-out-of-range error when
  the dictionary is empty.
\<close>

theorem C1_parseStringDict_wire_index:
  fixes dc :: "'f reader"
  shows "(0 \<le> sint i \<longrightarrow>
            parseStringDict (WInt i # dc) dict =
              (if sint i < int (length dict) then Return (dict ! nat (sint i), None, dc)
               else Return ([], Some (ErrDictIndex i), dc)))
       \<and> (uint u \<le> 2 ^ 63 - 1 \<longrightarrow>
            parseStringDict (WUint u # dc) dict =
              (if uint u < int (length dict) then Return (dict ! nat (uint u), None, dc)
               else Return ([], Some (ErrDictIndex u), dc)))
       \<and> (uint u > 2 ^ 63 - 1 \<longrightarrow>
            parseStringDict (WUint u # dc) dict =
              (if dict = [] then Return ([], Some (ErrDictIndex 0), dc)
               else Return (dict ! 0, Some (UintOverflow u 64), dc)))"
  by (auto simp: parseStringDict_def ReadInt_def gt_MaxInt64 sint_small64)

text \<open>
  C1 as stated fails: the unsigned wire index \<open>2^63\<close> is at least the length of the
  dictionary \<open>["web"]\<close>, yet the decoder does not fail with the index-out-of-range
  error: it returns \<open>"web"\<close> with the library's overflow error.
\<close>

theorem C1_counterexample:
  "parseStringDict [WUint 9223372036854775808 :: int wire] [''web'']
     = Return (''web'', Some (UintOverflow 9223372036854775808 64), [])
   \<and> int (length [''web'']) \<le> uint (9223372036854775808 :: 64 word)"
  by code_simp

theorem C1_witness:
  "parseStringDict [WInt 1 :: int wire] [''web'', ''GET /''] = Return (''GET /'', None, [])
   \<and> parseStringDict [WInt 2 :: int wire] [''web'', ''GET /'']
       = Return ([], Some (ErrDictIndex 2), [])
   \<and> parseStringDict [WUint 1 :: int wire] [''web'', ''GET /''] = Return (''GET /'', None, [])
   \<and> parseStringDict [WUint 2 :: int wire] [''web'', ''GET /'']
       = Return ([], Some (ErrDictIndex 2), [])
   \<and> parseStringDict [WUint 18446744073709551615 :: int wire] [''web'', ''GET /'']
       = Return (''web'', Some (UintOverflow 18446744073709551615 64), [])"
  using
    C1_parseStringDict_wire_index [of 1 "[] :: int wire list" "[''web'', ''GET /'']" 1]
    C1_parseStringDict_wire_index [of 2 "[] :: int wire list" "[''web'', ''GET /'']" 2]
    C1_parseStringDict_wire_index
      [of 1 "[] :: int wire list" "[''web'', ''GET /'']" 18446744073709551615]
  by simp

text \<open>
  C2. The Uint64 decoder returns an unsigned wire integer unchanged; it returns a signed
  wire integer as the same 64 bits read as unsigned, that is the value modulo \<open>2^64\<close>,
  with no check of the sign, so \<open>-1\<close> decodes to \<open>18446744073709551615\<close>; no wire
  integer of either kind makes it fail.
\<close>

theorem C2_parseUint64_reinterprets:
  fixes dc :: "'f reader"
  shows "parseUint64 (WUint u # dc) = (u, None, dc)
       \<and> parseUint64 (WInt i # dc) = (i, None, dc)
       \<and> uint (fst (parseUint64 (WInt i # dc))) = sint i mod 2 ^ 64
       \<and> uint (fst (parseUint64 (WInt (- 1) # dc))) = 18446744073709551615"
  by (simp add: parseUint64_def uint_sint take_bit_eq_mod)

text \<open>
  C3. For an unsigned wire integer \<open>u\<close>, the Int64 decoder fails with the overflow error
  when \<open>u > 2^63 - 1\<close> and otherwise returns the signed value equal to \<open>u\<close>; the Int32
  decoder fails with an overflow error when \<open>u > 2^31 - 1\<close> (the library's one beyond
  \<open>2^32 - 1\<close>, the decoder's own up to there) and otherwise returns the signed 32-bit
  value equal to \<open>u\<close>. An overflow error is raised exactly when \<open>u\<close> exceeds the signed
  maximum of the target width, and then only.
\<close>

theorem C3_unsigned_overflow:
  fixes dc :: "'f reader"
  shows "parseInt64 (WUint u # dc) =
           (if uint u > 2 ^ 63 - 1 then (0, Some ErrInt64Overflow, dc) else (u, None, dc))
       \<and> sint (fst (parseInt64 (WUint u # dc))) = (if uint u > 2 ^ 63 - 1 then 0 else uint u)
       \<and> parseInt32 (WUint u # dc) =
           (if uint u > 2 ^ 32 - 1 then (0, Some (UintOverflow u 32), dc)
            else if uint u > 2 ^ 31 - 1 then (0, Some ErrInt32Overflow, dc)
            else (ucast u, None, dc))
       \<and> sint (fst (parseInt32 (WUint u # dc))) = (if uint u > 2 ^ 31 - 1 then 0 else uint u)
       \<and> ((\<exists>e. fst (snd (parseInt64 (WUint u # dc))) = Some e \<and> overflow_error e)
            = (uint u > 2 ^ 63 - 1))
       \<and> ((\<exists>e. fst (snd (parseInt32 (WUint u # dc))) = Some e \<and> overflow_error e)
            = (uint u > 2 ^ 31 - 1))
       \<and> ((fst (snd (parseInt64 (WUint u # dc))) = None) = (uint u \<le> 2 ^ 63 - 1))
       \<and> ((fst (snd (parseInt32 (WUint u # dc))) = None) = (uint u \<le> 2 ^ 31 - 1))"
  by (simp add: parseInt64_WUint parseInt32_WUint sint_small64 sint_small32 uint_ucast32)

theorem C3_witness:
  "parseInt64 [WUint 9223372036854775808 :: int wire] = (0, Some ErrInt64Overflow, [])
   \<and> parseInt64 [WUint 9223372036854775807 :: int wire] = (9223372036854775807, None, [])
   \<and> parseInt32 [WUint 2147483648 :: int wire] = (0, Some ErrInt32Overflow, [])
   \<and> parseInt32 [WUint 2147483647 :: int wire] = (2147483647, None, [])
   \<and> parseInt32 [WUint 4294967296 :: int wire] = (0, Some (UintOverflow 4294967296 32), [])"
  using C3_unsigned_overflow [of 9223372036854775808 "[] :: int wire list"]
    C3_unsigned_overflow [of 9223372036854775807 "[] :: int wire list"]
    C3_unsigned_overflow [of 2147483648 "[] :: int wire list"]
    C3_unsigned_overflow [of 2147483647 "[] :: int wire list"]
    C3_unsigned_overflow [of 4294967296 "[] :: int wire list"]
  by simp

text \<open>
  C6. A negative index read by the DictionaryString decoder ought to fail with the
  index-out-of-range error. The decoder compares the index with the length of the
  dictionary only: on the index \<open>-1\<close> and the dictionary \<open>["web"]\<close> it indexes the
  dictionary below its start and panics instead of returning an error, and so does the
  decode of a whole payload whose first span has \<open>-1\<close> for its Service.
\<close>

theorem C6_negative_index_panics:
  "parseStringDict [WInt (- 1) :: int wire] [''web''] = Panic IndexOutOfRangePanic
   \<and> Traces_DecodeMsgArray int_float_ops
       [WArray 2, WArray 1, WStr ''web'', WArray 1, WArray 1, WArray 12, WInt (- 1), WInt 0,
        WInt 0, WInt 1, WInt 2, WInt 0, WInt 1000, WInt 500, WInt 0, WMap 0, WMap 0, WInt 0]
       nil_slice
     = Panic IndexOutOfRangePanic"
  by code_simp

subsection \<open>The span record decoder\<close>

text \<open>
  C4. A span record whose array header declares a count other than 12 fails with the
  arity error; only the header has been read, and the destination span is returned
  exactly as it was passed in, whether recycled or new.
\<close>

theorem C4_arity_error_keeps_span:
  assumes "xsz \<noteq> 12"
  shows "Span_DecodeMsgArray fo (WArray xsz # dc) dictionary z
           = Return (Some ErrSpanArity, z, dc)"
  using assms by (simp add: Span_DecodeMsgArray_def spanPropertyCount_def)

theorem C4_witness:
  "Span_DecodeMsgArray int_float_ops [WArray 11, WInt 0] [''web'']
      (new_Span\<lparr>Service := ''old'', TraceID := 7\<rparr>)
     = Return (Some ErrSpanArity, new_Span\<lparr>Service := ''old'', TraceID := 7\<rparr>, [WInt 0])
   \<and> Span_DecodeMsgArray int_float_ops [WArray 13, WInt 0] [''web''] new_Span
     = Return (Some ErrSpanArity, new_Span, [WInt 0])"
proof -
  have h1: "(11 :: 32 word) \<noteq> 12" by simp
  have h2: "(13 :: 32 word) \<noteq> 12" by simp
  show ?thesis
    using
      C4_arity_error_keeps_span [OF h1, of int_float_ops "[WInt 0]" "[''web'']"
        "new_Span\<lparr>Service := ''old'', TraceID := 7\<rparr>"]
      C4_arity_error_keeps_span [OF h2, of int_float_ops "[WInt 0]" "[''web'']" new_Span]
    by simp
qed

subsection \<open>What a failing span decode leaves behind\<close>

lemma same_field_refl: "same_field j z z"
  by (simp add: same_field_def)

lemma same_field_trans: "same_field j a b \<Longrightarrow> same_field j b c \<Longrightarrow> same_field j a c"
  by (simp add: same_field_def split: if_splits)

lemma parseStringDict_err:
  "parseStringDict dc d = Return (s, Some e, dc') \<Longrightarrow> failed_string d s"
  by (auto simp: parseStringDict_def ReadInt_def failed_string_def split: prod.splits if_splits
      elim!: ReadInt64.elims)

lemma parseUint64_err: "parseUint64 dc = (v, Some e, dc') \<Longrightarrow> v = 0"
  by (auto simp: parseUint64_def split: prod.splits option.splits msgp_Type.splits)

lemma parseInt64_err: "parseInt64 dc = (v, Some e, dc') \<Longrightarrow> v = 0"
  by (auto simp: parseInt64_def split: prod.splits option.splits msgp_Type.splits bool.splits)

lemma parseInt32_err: "parseInt32 dc = (v, Some e, dc') \<Longrightarrow> v = 0"
  by (auto simp: parseInt32_def split: prod.splits option.splits msgp_Type.splits bool.splits)

lemma meta_loop_frame:
  "meta_loop n dc d z = Return (err, z', dc') \<Longrightarrow> z' = z\<lparr>Meta := Meta z'\<rparr>"
proof (induction n arbitrary: dc z)
  case 0
  then show ?case by simp
next
  case (Suc n)
  then show ?case
    by (auto split: outcome.splits prod.splits option.splits dest!: Suc.IH)
qed

lemma metrics_loop_frame:
  "metrics_loop fo n dc d z = Return (err, z', dc') \<Longrightarrow> z' = z\<lparr>Metrics := Metrics z'\<rparr>"
proof (induction n arbitrary: dc z)
  case 0
  then show ?case by simp
next
  case (Suc n)
  then show ?case
    by (auto split: outcome.splits prod.splits option.splits dest!: Suc.IH)
qed

lemma field_Meta_frame:
  "field_Meta fo dc d z = Return (err, z', dc') \<Longrightarrow> z' = z\<lparr>Meta := Meta z'\<rparr>"
  by (auto simp: field_Meta_def split: prod.splits option.splits if_splits dest!: meta_loop_frame)

lemma field_Metrics_frame:
  "field_Metrics fo dc d z = Return (err, z', dc') \<Longrightarrow> z' = z\<lparr>Metrics := Metrics z'\<rparr>"
  by (auto simp: field_Metrics_def split: prod.splits option.splits if_splits dest!: metrics_loop_frame)

lemma lt_12_cases:
  "k < 12 \<Longrightarrow> k = 0 \<or> k = 1 \<or> k = 2 \<or> k = 3 \<or> k = 4 \<or> k = 5 \<or> k = 6 \<or> k = 7 \<or> k = 8
     \<or> k = 9 \<or> k = 10 \<or> k = (11::nat)"
  by arith

lemma dict_steps_frame:
  "field_Service fo dc d z = Return (err, z', dc') \<Longrightarrow> z' = z\<lparr>Service := Service z'\<rparr>"
  "field_Name fo dc d z = Return (err, z', dc') \<Longrightarrow> z' = z\<lparr>Name := Name z'\<rparr>"
  "field_Resource fo dc d z = Return (err, z', dc') \<Longrightarrow> z' = z\<lparr>Resource := Resource z'\<rparr>"
  "field_Type fo dc d z = Return (err, z', dc') \<Longrightarrow> z' = z\<lparr>Type := Type z'\<rparr>"
  by (auto simp: field_Service_def field_Name_def field_Resource_def field_Type_def
      split: outcome.splits prod.splits)

lemma num_steps_frame:
  "field_TraceID fo dc d z = Return (err, z', dc') \<Longrightarrow> z' = z\<lparr>TraceID := TraceID z'\<rparr>"
  "field_SpanID fo dc d z = Return (err, z', dc') \<Longrightarrow> z' = z\<lparr>SpanID := SpanID z'\<rparr>"
  "field_ParentID fo dc d z = Return (err, z', dc') \<Longrightarrow> z' = z\<lparr>ParentID := ParentID z'\<rparr>"
  "field_Start fo dc d z = Return (err, z', dc') \<Longrightarrow> z' = z\<lparr>Start := Start z'\<rparr>"
  "field_Duration fo dc d z = Return (err, z', dc') \<Longrightarrow> z' = z\<lparr>Duration := Duration z'\<rparr>"
  "field_Error fo dc d z = Return (err, z', dc') \<Longrightarrow> z' = z\<lparr>Error := Error z'\<rparr>"
  by (auto simp: field_TraceID_def field_SpanID_def field_ParentID_def field_Start_def
      field_Duration_def field_Error_def split: prod.splits)

lemma same_field_updates:
  "j \<noteq> 0 \<Longrightarrow> same_field j (z\<lparr>Service := s\<rparr>) z"
  "j \<noteq> 1 \<Longrightarrow> same_field j (z\<lparr>Name := s\<rparr>) z"
  "j \<noteq> 2 \<Longrightarrow> same_field j (z\<lparr>Resource := s\<rparr>) z"
  "j \<noteq> 3 \<Longrightarrow> same_field j (z\<lparr>TraceID := w\<rparr>) z"
  "j \<noteq> 4 \<Longrightarrow> same_field j (z\<lparr>SpanID := w\<rparr>) z"
  "j \<noteq> 5 \<Longrightarrow> same_field j (z\<lparr>ParentID := w\<rparr>) z"
  "j \<noteq> 6 \<Longrightarrow> same_field j (z\<lparr>Start := w\<rparr>) z"
  "j \<noteq> 7 \<Longrightarrow> same_field j (z\<lparr>Duration := w\<rparr>) z"
  "j \<noteq> 8 \<Longrightarrow> same_field j (z\<lparr>Error := w32\<rparr>) z"
  "j \<noteq> 9 \<Longrightarrow> same_field j (z\<lparr>Meta := m\<rparr>) z"
  "j \<noteq> 10 \<Longrightarrow> same_field j (z\<lparr>Metrics := mf\<rparr>) z"
  "j \<noteq> 11 \<Longrightarrow> same_field j (z\<lparr>Type := s\<rparr>) z"
  by (simp_all add: same_field_def)

lemma step_frame:
  assumes "k < 12" and "(span_fields ! k) fo dc d z = Return (err, z', dc')" and "j \<noteq> k"
  shows "same_field j z' z"
proof -
  from assms(1) have "k = 0 \<or> k = 1 \<or> k = 2 \<or> k = 3 \<or> k = 4 \<or> k = 5 \<or> k = 6 \<or> k = 7 \<or> k = 8
     \<or> k = 9 \<or> k = 10 \<or> k = 11" by (rule lt_12_cases)
  then show ?thesis
  proof (elim disjE)
    assume k: "k = 0"
    with assms(2) have "z' = z\<lparr>Service := Service z'\<rparr>"
      by (simp add: span_fields_def dict_steps_frame)
    with assms(3) k show ?thesis by (metis same_field_updates(1))
  next
    assume k: "k = 1"
    with assms(2) have "z' = z\<lparr>Name := Name z'\<rparr>"
      by (simp add: span_fields_def dict_steps_frame)
    with assms(3) k show ?thesis by (metis same_field_updates(2))
  next
    assume k: "k = 2"
    with assms(2) have "z' = z\<lparr>Resource := Resource z'\<rparr>"
      by (simp add: span_fields_def dict_steps_frame)
    with assms(3) k show ?thesis by (metis same_field_updates(3))
  next
    assume k: "k = 3"
    with assms(2) have "z' = z\<lparr>TraceID := TraceID z'\<rparr>"
      by (simp add: span_fields_def num_steps_frame)
    with assms(3) k show ?thesis by (metis same_field_updates(4))
  next
    assume k: "k = 4"
    with assms(2) have "z' = z\<lparr>SpanID := SpanID z'\<rparr>"
      by (simp add: span_fields_def num_steps_frame)
    with assms(3) k show ?thesis by (metis same_field_updates(5))
  next
    assume k: "k = 5"
    with assms(2) have "z' = z\<lparr>ParentID := ParentID z'\<rparr>"
      by (simp add: span_fields_def num_steps_frame)
    with assms(3) k show ?thesis by (metis same_field_updates(6))
  next
    assume k: "k = 6"
    with assms(2) have "z' = z\<lparr>Start := Start z'\<rparr>"
      by (simp add: span_fields_def num_steps_frame)
    with assms(3) k show ?thesis by (metis same_field_updates(7))
  next
    assume k: "k = 7"
    with assms(2) have "z' = z\<lparr>Duration := Duration z'\<rparr>"
      by (simp add: span_fields_def num_steps_frame)
    with assms(3) k show ?thesis by (metis same_field_updates(8))
  next
    assume k: "k = 8"
    with assms(2) have "z' = z\<lparr>Error := Error z'\<rparr>"
      by (simp add: span_fields_def num_steps_frame)
    with assms(3) k show ?thesis by (metis same_field_updates(9))
  next
    assume k: "k = 9"
    with assms(2) have "z' = z\<lparr>Meta := Meta z'\<rparr>"
      by (simp add: span_fields_def field_Meta_frame)
    with assms(3) k show ?thesis by (metis same_field_updates(10))
  next
    assume k: "k = 10"
    with assms(2) have "z' = z\<lparr>Metrics := Metrics z'\<rparr>"
      by (simp add: span_fields_def field_Metrics_frame)
    with assms(3) k show ?thesis by (metis same_field_updates(11))
  next
    assume k: "k = 11"
    with assms(2) have "z' = z\<lparr>Type := Type z'\<rparr>"
      by (simp add: span_fields_def dict_steps_frame)
    with assms(3) k show ?thesis by (metis same_field_updates(12))
  qed
qed

lemma run_fields_append:
  "run_fields (fs @ gs) fo dc d z =
     (case run_fields fs fo dc d z of
        Panic p \<Rightarrow> Panic p
      | Return (Some e, z', dc') \<Rightarrow> Return (Some e, z', dc')
      | Return (None, z', dc') \<Rightarrow> run_fields gs fo dc' d z')"
  by (induction fs arbitrary: dc z) (auto split: outcome.splits option.splits)

lemma length_span_fields: "length span_fields = 12"
  by (simp add: span_fields_def)

lemma prefix_frame:
  assumes "k \<le> 12" and "run_fields (take k span_fields) fo dc d z = Return (None, zk, dck)"
    and "k \<le> j"
  shows "same_field j zk z"
  using assms
proof (induction k arbitrary: zk dck)
  case 0
  then show ?case by (simp add: same_field_refl)
next
  case (Suc k)
  have k: "k < 12" using Suc.prems(1) by simp
  then have split: "take (Suc k) span_fields = take k span_fields @ [span_fields ! k]"
    by (simp add: take_Suc_conv_app_nth length_span_fields)
  from Suc.prems(2) obtain z1 dc1 where
    pre: "run_fields (take k span_fields) fo dc d z = Return (None, z1, dc1)" and
    st: "(span_fields ! k) fo dc1 d z1 = Return (None, zk, dck)"
    unfolding split run_fields_append
    by (auto split: outcome.splits option.splits)
  have "same_field j z1 z"
    using Suc.IH [OF _ pre] k Suc.prems(3) by simp
  moreover have "same_field j zk z1"
    using step_frame [OF k st] Suc.prems(3) by simp
  ultimately show ?case by (blast intro: same_field_trans)
qed

lemma failed_step:
  assumes "k < 12" and "(span_fields ! k) fo dc d z = Return (Some e, z', dc')"
  shows "failed_field k d z'"
proof -
  from assms(1) have "k = 0 \<or> k = 1 \<or> k = 2 \<or> k = 3 \<or> k = 4 \<or> k = 5 \<or> k = 6 \<or> k = 7 \<or> k = 8
     \<or> k = 9 \<or> k = 10 \<or> k = 11" by (rule lt_12_cases)
  then show ?thesis
    using assms(2)
    by (elim disjE)
      (auto simp: span_fields_def failed_field_def field_Service_def field_Name_def
        field_Resource_def field_Type_def field_TraceID_def field_SpanID_def
        field_ParentID_def field_Start_def field_Duration_def field_Error_def
        split: outcome.splits prod.splits
        dest: parseStringDict_err parseUint64_err parseInt64_err parseInt32_err)
qed

lemma run_fields_fail_at:
  assumes "k < length fs"
    and "run_fields (take k fs) fo dc d z = Return (None, zk, dck)"
    and "(fs ! k) fo dck d zk = Return (Some e, z', dc')"
  shows "run_fields fs fo dc d z = Return (Some e, z', dc')"
proof -
  have "fs = take k fs @ (fs ! k) # drop (Suc k) fs"
    using assms(1) by (rule id_take_nth_drop)
  then have "run_fields fs fo dc d z = run_fields (take k fs @ (fs ! k) # drop (Suc k) fs) fo dc d z"
    by simp
  also have "\<dots> = Return (Some e, z', dc')"
    unfolding run_fields_append using assms(2,3) by simp
  finally show ?thesis .
qed

text \<open>
  Every error the span decoder returns after the arity check is the error of one field
  \<open>k\<close>, reached after the fields before it decoded without error.
\<close>

lemma run_fields_error_at:
  "run_fields fs fo dc d z = Return (Some e, z', dc') \<Longrightarrow>
     \<exists>k zk dck. k < length fs
        \<and> run_fields (take k fs) fo dc d z = Return (None, zk, dck)
        \<and> (fs ! k) fo dck d zk = Return (Some e, z', dc')"
proof (induction fs arbitrary: dc z)
  case Nil
  then show ?case by simp
next
  case (Cons f fs)
  show ?case
  proof (cases "f fo dc d z")
    case (Panic p)
    with Cons.prems show ?thesis by simp
  next
    case (Return r)
    obtain err z1 dc1 where r: "r = (err, z1, dc1)" by (cases r)
    show ?thesis
    proof (cases err)
      case (Some e1)
      with Return r Cons.prems have "e1 = e" "z1 = z'" "dc1 = dc'" by simp_all
      with Return r Some have "0 < length (f # fs)
          \<and> run_fields (take 0 (f # fs)) fo dc d z = Return (None, z, dc)
          \<and> ((f # fs) ! 0) fo dc d z = Return (Some e, z', dc')" by simp
      then show ?thesis by blast
    next
      case None
      with Return r Cons.prems have "run_fields fs fo dc1 d z1 = Return (Some e, z', dc')"
        by simp
      from Cons.IH [OF this] obtain k zk dck where
        k: "k < length fs" and
        p: "run_fields (take k fs) fo dc1 d z1 = Return (None, zk, dck)" and
        s: "(fs ! k) fo dck d zk = Return (Some e, z', dc')" by blast
      have "Suc k < length (f # fs)
          \<and> run_fields (take (Suc k) (f # fs)) fo dc d z = Return (None, zk, dck)
          \<and> ((f # fs) ! Suc k) fo dck d zk = Return (Some e, z', dc')"
        using k p s Return r None by simp
      then show ?thesis by blast
    qed
  qed
qed

lemma span_error_at_some_field:
  assumes "Span_DecodeMsgArray fo (WArray 12 # dc) d z = Return (Some e, z', dc')"
  shows "\<exists>k zk dck. k < 12
        \<and> run_fields (take k span_fields) fo dc d z = Return (None, zk, dck)
        \<and> (span_fields ! k) fo dck d zk = Return (Some e, z', dc')"
proof -
  from assms have "run_fields span_fields fo dc d z = Return (Some e, z', dc')"
    by (simp add: Span_DecodeMsgArray_def spanPropertyCount_def)
  from run_fields_error_at [OF this] show ?thesis
    by (simp add: length_span_fields)
qed

subsection \<open>Reuse of the Meta and Metrics maps\<close>

lemma dict_ref_parse:
  "dict_ref d w = Some s \<Longrightarrow> parseStringDict (w # dc) d = Return (s, None, dc)"
  by (cases w)
    (auto simp: dict_ref_def parseStringDict_def ReadInt_def badPrefix_def
      split: if_splits)

lemma float_ref_parse:
  "float_ref fo w = Some f \<Longrightarrow> parseFloat64 fo (w # dc) = (f, None, dc)"
  by (cases w)
    (auto simp: float_ref_def parseFloat64_def split: if_splits)

lemma meta_loop_pairs:
  "meta_pairs d ps = Some kvs \<Longrightarrow> Meta z = Some m \<Longrightarrow>
     meta_loop (length ps) (wire_pairs ps @ dc) d z
       = Return (None, z\<lparr>Meta := Some (assign_all kvs m)\<rparr>, dc)"
proof (induction ps arbitrary: kvs m z)
  case Nil
  then show ?case by (simp add: assign_all_def)
next
  case (Cons p ps)
  obtain a b where p: "p = (a, b)" by (cases p)
  from Cons.prems(1) p obtain k v kvs' where
    a: "dict_ref d a = Some k" and b: "dict_ref d b = Some v" and
    r: "meta_pairs d ps = Some kvs'" and kvs: "kvs = (k, v) # kvs'"
    by (auto split: option.splits)
  have "meta_loop (length (p # ps)) (wire_pairs (p # ps) @ dc) d z
      = meta_loop (length ps) (wire_pairs ps @ dc) d (z\<lparr>Meta := Some (AList.update k v m)\<rparr>)"
    using Cons.prems(2)
    by (simp add: p dict_ref_parse [OF a] dict_ref_parse [OF b] map_assign_def)
  also have "\<dots> = Return (None, z\<lparr>Meta := Some (assign_all kvs' (AList.update k v m))\<rparr>, dc)"
    using Cons.IH [OF r, of "z\<lparr>Meta := Some (AList.update k v m)\<rparr>" "AList.update k v m"]
    by simp
  finally show ?case by (simp add: kvs assign_all_def)
qed

lemma metrics_loop_pairs:
  "metric_pairs fo d ps = Some kvs \<Longrightarrow> Metrics z = Some m \<Longrightarrow>
     metrics_loop fo (length ps) (wire_pairs ps @ dc) d z
       = Return (None, z\<lparr>Metrics := Some (assign_all kvs m)\<rparr>, dc)"
proof (induction ps arbitrary: kvs m z)
  case Nil
  then show ?case by (simp add: assign_all_def)
next
  case (Cons p ps)
  obtain a b where p: "p = (a, b)" by (cases p)
  from Cons.prems(1) p obtain k v kvs' where
    a: "dict_ref d a = Some k" and b: "float_ref fo b = Some v" and
    r: "metric_pairs fo d ps = Some kvs'" and kvs: "kvs = (k, v) # kvs'"
    by (auto split: option.splits)
  have "metrics_loop fo (length (p # ps)) (wire_pairs (p # ps) @ dc) d z
      = metrics_loop fo (length ps) (wire_pairs ps @ dc) d (z\<lparr>Metrics := Some (AList.update k v m)\<rparr>)"
    using Cons.prems(2)
    by (simp add: p dict_ref_parse [OF a] float_ref_parse [OF b] map_assign_def)
  also have "\<dots> = Return (None, z\<lparr>Metrics := Some (assign_all kvs' (AList.update k v m))\<rparr>, dc)"
    using Cons.IH [OF r, of "z\<lparr>Metrics := Some (AList.update k v m)\<rparr>" "AList.update k v m"]
    by simp
  finally show ?case by (simp add: kvs assign_all_def)
qed

lemma fold_delete_filter:
  "fold AList.delete ks m = filter (\<lambda>(k, v). k \<notin> set ks) m"
proof (induction ks arbitrary: m)
  case Nil
  then show ?case by simp
next
  case (Cons k ks)
  have "fold AList.delete (k # ks) m = filter (\<lambda>(k', v). k' \<notin> set ks) (AList.delete k m)"
    by (simp add: Cons.IH)
  also have "\<dots> = filter (\<lambda>(k', v). k' \<notin> set (k # ks)) m"
    by (induction m) auto
  finally show ?case .
qed

lemma fold_map_delete: "fold map_delete ks (Some m) = Some (fold AList.delete ks m)"
  by (induction ks arbitrary: m) (simp_all add: map_delete_def)

lemma map_clear_Some: "map_clear (Some m) = Some []"
  by (force simp: map_clear_def map_keys_def fold_map_delete fold_delete_filter filter_empty_conv)

lemma map_of_assign_all: "map_of (assign_all kvs m) = map_of (rev kvs @ m)"
proof (induction kvs arbitrary: m)
  case Nil
  then show ?case by (simp add: assign_all_def)
next
  case (Cons p kvs)
  obtain k v where p: "p = (k, v)" by (cases p)
  have "map_of (assign_all (p # kvs) m) = map_of (assign_all kvs (AList.update k v m))"
    by (simp add: assign_all_def p)
  also have "\<dots> = map_of (rev kvs @ AList.update k v m)"
    by (rule Cons.IH)
  also have "\<dots> = map_of (rev (p # kvs) @ m)"
    by (simp add: p update_conv' map_add_upd_left fun_eq_iff map_add_def split: option.splits)
  finally show ?case .
qed

lemma map_entries_refilled: "map_entries (refilled prior kvs) = map_of (rev kvs)"
  by (simp add: refilled_def map_entries_def map_of_assign_all)

lemma unat_length32: "n < 2 ^ 32 \<Longrightarrow> unat (of_nat n :: 32 word) = n"
  by (simp add: unat_of_nat)

lemma length_pos32: "n < 2 ^ 32 \<Longrightarrow> ((of_nat n :: 32 word) > 0) = (n > 0)"
  by (simp add: word_less_nat_alt unat_of_nat)

lemma meta_pairs_length: "meta_pairs d ps = Some kvs \<Longrightarrow> length kvs = length ps"
  by (induction ps arbitrary: kvs) (auto split: option.splits)

lemma metric_pairs_length: "metric_pairs fo d ps = Some kvs \<Longrightarrow> length kvs = length ps"
  by (induction ps arbitrary: kvs) (auto split: option.splits)

lemma field_Meta_pairs:
  assumes "meta_pairs d ps = Some kvs" and "length ps < 2 ^ 32"
  shows "field_Meta fo (WMap (of_nat (length ps)) # wire_pairs ps @ dc) d z
           = Return (None, z\<lparr>Meta := refilled (Meta z) kvs\<rparr>, dc)"
proof (cases "Meta z")
  case None
  show ?thesis
  proof (cases ps)
    case Nil
    with None assms show ?thesis
      by (simp add: field_Meta_def map_len_def refilled_def)
  next
    case (Cons p ps')
    then have kvs: "kvs \<noteq> []" using meta_pairs_length [OF assms(1)] by auto
    have "ps \<noteq> []" using Cons by simp
    then show ?thesis
      using None assms kvs
        meta_loop_pairs [OF assms(1), of "z\<lparr>Meta := Some []\<rparr>" "[]" dc]
      by (simp add: field_Meta_def unat_length32 length_pos32 refilled_def)
  qed
next
  case (Some m)
  show ?thesis
  proof (cases m)
    case Nil
    with Some assms show ?thesis
      using meta_loop_pairs [OF assms(1), of z "[]" dc]
      by (simp add: field_Meta_def unat_length32 map_len_def refilled_def)
  next
    case (Cons x xs)
    with Some assms show ?thesis
      using meta_loop_pairs [OF assms(1), of "z\<lparr>Meta := Some []\<rparr>" "[]" dc]
      by (simp add: field_Meta_def unat_length32 map_len_def map_clear_Some refilled_def)
  qed
qed

lemma field_Metrics_pairs:
  assumes "metric_pairs fo d ps = Some kvs" and "length ps < 2 ^ 32"
  shows "field_Metrics fo (WMap (of_nat (length ps)) # wire_pairs ps @ dc) d z
           = Return (None, z\<lparr>Metrics := refilled (Metrics z) kvs\<rparr>, dc)"
proof (cases "Metrics z")
  case None
  show ?thesis
  proof (cases ps)
    case Nil
    with None assms show ?thesis
      by (simp add: field_Metrics_def map_len_def refilled_def)
  next
    case (Cons p ps')
    then have kvs: "kvs \<noteq> []" using metric_pairs_length [OF assms(1)] by auto
    have "ps \<noteq> []" using Cons by simp
    then show ?thesis
      using None assms kvs
        metrics_loop_pairs [OF assms(1), of "z\<lparr>Metrics := Some []\<rparr>" "[]" dc]
      by (simp add: field_Metrics_def unat_length32 length_pos32 refilled_def)
  qed
next
  case (Some m)
  show ?thesis
  proof (cases m)
    case Nil
    with Some assms show ?thesis
      using metrics_loop_pairs [OF assms(1), of z "[]" dc]
      by (simp add: field_Metrics_def unat_length32 map_len_def refilled_def)
  next
    case (Cons x xs)
    with Some assms show ?thesis
      using metrics_loop_pairs [OF assms(1), of "z\<lparr>Metrics := Some []\<rparr>" "[]" dc]
      by (simp add: field_Metrics_def unat_length32 map_len_def map_clear_Some refilled_def)
  qed
qed

text \<open>
  C5, as amended. Take any destination span, recycled or new, and a record whose first
  nine fields decode without error, followed by a Meta map of the pairs \<open>ps\<close>, a Metrics
  map of the pairs \<open>qs\<close> and a Type index, all resolvable. Then the span decode succeeds,
  and afterwards Meta (resp. Metrics) holds exactly the key/value pairs of the new
  payload, a repeated key keeping its last value, and nothing of what it held before:
  prior entries are deleted one by one (\<open>map_clear_Some\<close>) before the pairs are assigned.
  A nil map is replaced by a fresh one only when the wire-declared count is positive;
  with a count of 0 it stays nil, and a non-nil empty map is used as it is.
\<close>

theorem C5_maps_refilled:
  assumes "run_fields (take 9 span_fields) fo dc d z
             = Return (None, z9,
                 WMap (of_nat (length ps)) # wire_pairs ps
                   @ WMap (of_nat (length qs)) # wire_pairs qs @ ty # rest)"
    and "meta_pairs d ps = Some kvs" and "length ps < 2 ^ 32"
    and "metric_pairs fo d qs = Some kfs" and "length qs < 2 ^ 32"
    and "dict_ref d ty = Some t"
  shows "Span_DecodeMsgArray fo (WArray 12 # dc) d z
           = Return (None,
               z9\<lparr>Meta := refilled (Meta z) kvs, Metrics := refilled (Metrics z) kfs,
                  Type := t\<rparr>, rest)
       \<and> map_entries (refilled (Meta z) kvs) = map_of (rev kvs)
       \<and> map_entries (refilled (Metrics z) kfs) = map_of (rev kfs)"
proof -
  have "same_field 9 z9 z" "same_field 10 z9 z"
    using prefix_frame [OF _ assms(1)] by simp_all
  then have keep: "Meta z9 = Meta z" "Metrics z9 = Metrics z"
    by (simp_all add: same_field_def)
  have "run_fields span_fields fo dc d z
      = run_fields (take 9 span_fields @ [field_Meta, field_Metrics, field_Type]) fo dc d z"
    by (simp add: span_fields_def)
  also have "\<dots> = run_fields [field_Meta, field_Metrics, field_Type] fo
      (WMap (of_nat (length ps)) # wire_pairs ps
         @ WMap (of_nat (length qs)) # wire_pairs qs @ ty # rest) d z9"
    unfolding run_fields_append using assms(1) by simp
  also have "\<dots> = Return (None,
      z9\<lparr>Meta := refilled (Meta z) kvs, Metrics := refilled (Metrics z) kfs, Type := t\<rparr>, rest)"
    using field_Meta_pairs [OF assms(2,3), of fo
        "WMap (of_nat (length qs)) # wire_pairs qs @ ty # rest" z9]
      field_Metrics_pairs [OF assms(4,5), of "ty # rest" "z9\<lparr>Meta := refilled (Meta z) kvs\<rparr>"]
      dict_ref_parse [OF assms(6), of rest]
    by (simp add: keep field_Type_def)
  finally have "Span_DecodeMsgArray fo (WArray 12 # dc) d z
      = Return (None,
          z9\<lparr>Meta := refilled (Meta z) kvs, Metrics := refilled (Metrics z) kfs, Type := t\<rparr>,
          rest)"
    by (simp add: Span_DecodeMsgArray_def spanPropertyCount_def)
  then show ?thesis by (simp add: map_entries_refilled)
qed

text \<open>
  C5 as stated fails in its last clause: with an unset (nil) Meta and a wire-declared
  count of 0, no map is allocated, Meta is still nil after the successful decode.
\<close>

theorem C5_counterexample:
  "Span_DecodeMsgArray int_float_ops
      [WArray 12, WInt 0, WInt 0, WInt 0, WInt 1, WInt 2, WInt 0, WInt 1000, WInt 500, WInt 0,
       WMap 0, WMap 0, WInt 0] [''web''] new_Span
     = Return (None,
         \<lparr>Service = ''web'', Name = ''web'', Resource = ''web'', TraceID = 1, SpanID = 2,
          ParentID = 0, Start = 1000, Duration = 500, Error = 0, Meta = None, Metrics = None,
          Type = ''web''\<rparr>, [])"
  by code_simp

theorem C5_witness:
  "Span_DecodeMsgArray int_float_ops
      (WArray 12 # [WInt 0, WInt 0, WInt 0, WInt 1, WInt 2, WInt 0, WInt 1000, WInt 500, WInt 0,
       WMap 1, WInt 1, WInt 2, WMap 0, WInt 0]) [''web'', ''k'', ''v'']
      (new_Span\<lparr>Meta := Some [(''a'', ''1''), (''b'', ''2'')]\<rparr>)
     = Return (None,
         \<lparr>Service = ''web'', Name = ''web'', Resource = ''web'', TraceID = 1, SpanID = 2,
          ParentID = 0, Start = 1000, Duration = 500, Error = 0, Meta = Some [(''k'', ''v'')],
          Metrics = None, Type = ''web''\<rparr>, [])"
proof -
  have h1: "run_fields (take 9 span_fields) int_float_ops
      [WInt 0, WInt 0, WInt 0, WInt 1, WInt 2, WInt 0, WInt 1000, WInt 500, WInt 0,
       WMap 1, WInt 1, WInt 2, WMap 0, WInt 0] [''web'', ''k'', ''v'']
      (new_Span\<lparr>Meta := Some [(''a'', ''1''), (''b'', ''2'')]\<rparr>)
    = Return (None,
        \<lparr>Service = ''web'', Name = ''web'', Resource = ''web'', TraceID = 1, SpanID = 2,
          ParentID = 0, Start = 1000, Duration = 500, Error = 0,
          Meta = Some [(''a'', ''1''), (''b'', ''2'')], Metrics = None, Type = []\<rparr>,
        WMap (of_nat (length [(WInt 1, WInt 2 :: int wire)])) # wire_pairs [(WInt 1, WInt 2)]
          @ WMap (of_nat (length ([] :: (int wire \<times> int wire) list))) # wire_pairs [] @ WInt 0 # [])"
    by code_simp
  have h2: "meta_pairs [''web'', ''k'', ''v''] [(WInt 1, WInt 2 :: int wire)] = Some [(''k'', ''v'')]"
    by code_simp
  have h3: "length [(WInt 1, WInt 2 :: int wire)] < 2 ^ 32" by simp
  have h4: "metric_pairs int_float_ops [''web'', ''k'', ''v''] [] = Some []" by simp
  have h5: "length ([] :: (int wire \<times> int wire) list) < 2 ^ 32" by simp
  have h6: "dict_ref [''web'', ''k'', ''v''] (WInt 0 :: int wire) = Some ''web''" by code_simp
  have e: "\<lparr>Service = ''web'', Name = ''web'', Resource = ''web'', TraceID = 1, SpanID = 2,
          ParentID = 0, Start = 1000, Duration = 500, Error = 0,
          Meta = Some [(''a'', ''1''), (''b'', ''2'')], Metrics = None, Type = []\<rparr>
        \<lparr>Meta := refilled (Meta (new_Span\<lparr>Meta := Some [(''a'', ''1''), (''b'', ''2'')]\<rparr> :: int Span)) [(''k'', ''v'')],
         Metrics := refilled (Metrics (new_Span\<lparr>Meta := Some [(''a'', ''1''), (''b'', ''2'')]\<rparr> :: int Span)) [],
         Type := ''web''\<rparr>
      = \<lparr>Service = ''web'', Name = ''web'', Resource = ''web'', TraceID = 1, SpanID = 2,
          ParentID = 0, Start = 1000, Duration = 500, Error = 0, Meta = Some [(''k'', ''v'')],
          Metrics = (None :: (string \<times> int) list option), Type = ''web''\<rparr>"
    by code_simp
  show ?thesis
    using C5_maps_refilled [OF h1 h2 h3 h4 h5 h6] unfolding e by simp
qed

subsection \<open>Fields decoded before a failure\<close>

lemma parseStringDict_ok_ref:
  "parseStringDict dc d = Return (s, None, dc') \<Longrightarrow> \<exists>w. dc = w # dc' \<and> dict_ref d w = Some s"
  by (cases dc; cases "hd dc")
    (auto simp: parseStringDict_def ReadInt_def dict_ref_def badPrefix_def split: if_splits)

lemma parseFloat64_ok_ref:
  "parseFloat64 fo dc = (f, None, dc') \<Longrightarrow> \<exists>w. dc = w # dc' \<and> float_ref fo w = Some f"
  by (cases dc; cases "hd dc")
    (auto simp: parseFloat64_def float_ref_def split: if_splits)

lemma meta_loop_read:
  "meta_loop n dc d z = Return (None, z', dc') \<Longrightarrow> Meta z = Some m \<Longrightarrow>
     \<exists>kvs. read_meta_pairs n dc d = Some kvs \<and> length kvs = n
        \<and> Meta z' = Some (assign_all kvs m)"
proof (induction n arbitrary: dc z m)
  case 0
  then show ?case by (simp add: assign_all_def)
next
  case (Suc n)
  from Suc.prems obtain k dc1 v dc2 where
    k: "parseStringDict dc d = Return (k, None, dc1)" and
    v: "parseStringDict dc1 d = Return (v, None, dc2)" and
    r: "meta_loop n dc2 d (z\<lparr>Meta := Some (AList.update k v m)\<rparr>) = Return (None, z', dc')"
    by (auto simp: map_assign_def split: outcome.splits prod.splits option.splits)
  from parseStringDict_ok_ref [OF k] obtain a where a: "dc = a # dc1" "dict_ref d a = Some k"
    by blast
  from parseStringDict_ok_ref [OF v] obtain b where b: "dc1 = b # dc2" "dict_ref d b = Some v"
    by blast
  from Suc.IH [OF r, of "AList.update k v m"] obtain kvs where
    kvs: "read_meta_pairs n dc2 d = Some kvs" "length kvs = n"
      "Meta z' = Some (assign_all kvs (AList.update k v m))"
    by auto
  have "read_meta_pairs (Suc n) dc d = Some ((k, v) # kvs)"
    using a b kvs by simp
  moreover have "Meta z' = Some (assign_all ((k, v) # kvs) m)"
    using kvs by (simp add: assign_all_def)
  ultimately show ?case using kvs(2) by auto
qed

lemma metrics_loop_read:
  "metrics_loop fo n dc d z = Return (None, z', dc') \<Longrightarrow> Metrics z = Some m \<Longrightarrow>
     \<exists>kvs. read_metric_pairs fo n dc d = Some kvs \<and> length kvs = n
        \<and> Metrics z' = Some (assign_all kvs m)"
proof (induction n arbitrary: dc z m)
  case 0
  then show ?case by (simp add: assign_all_def)
next
  case (Suc n)
  from Suc.prems obtain k dc1 v dc2 where
    k: "parseStringDict dc d = Return (k, None, dc1)" and
    v: "parseFloat64 fo dc1 = (v, None, dc2)" and
    r: "metrics_loop fo n dc2 d (z\<lparr>Metrics := Some (AList.update k v m)\<rparr>) = Return (None, z', dc')"
    by (auto simp: map_assign_def split: outcome.splits prod.splits option.splits)
  from parseStringDict_ok_ref [OF k] obtain a where a: "dc = a # dc1" "dict_ref d a = Some k"
    by blast
  from parseFloat64_ok_ref [OF v] obtain b where b: "dc1 = b # dc2" "float_ref fo b = Some v"
    by blast
  from Suc.IH [OF r, of "AList.update k v m"] obtain kvs where
    kvs: "read_metric_pairs fo n dc2 d = Some kvs" "length kvs = n"
      "Metrics z' = Some (assign_all kvs (AList.update k v m))"
    by auto
  have "read_metric_pairs fo (Suc n) dc d = Some ((k, v) # kvs)"
    using a b kvs by simp
  moreover have "Metrics z' = Some (assign_all ((k, v) # kvs) m)"
    using kvs by (simp add: assign_all_def)
  ultimately show ?case using kvs(2) by auto
qed

lemma loop_nil_map:
  "meta_loop n dc d z = Return (None, z', dc') \<Longrightarrow> Meta z = None \<Longrightarrow> n = 0"
  "metrics_loop fo n dc d z = Return (None, z', dc') \<Longrightarrow> Metrics z = None \<Longrightarrow> n = 0"
  by (cases n; auto simp: map_assign_def split: outcome.splits prod.splits option.splits)+

lemma unat_pos32: "((w :: 32 word) > 0) = (unat w > 0)"
  by (simp add: word_less_nat_alt)

lemma field_Meta_decoded:
  assumes "field_Meta fo dc d z = Return (None, z', dc')"
  shows "decoded_field 9 fo dc d z z'"
proof -
  from assms obtain n rest where dc: "dc = WMap n # rest"
    by (cases dc; cases "hd dc") (auto simp: field_Meta_def)
  let ?z1 = "if Meta z = None \<and> n > 0 then z\<lparr>Meta := Some []\<rparr>
             else if map_len (Meta z) > 0 then z\<lparr>Meta := map_clear (Meta z)\<rparr> else z"
  have loop: "meta_loop (unat n) rest d ?z1 = Return (None, z', dc')"
    using assms dc by (simp add: field_Meta_def)
  have "\<exists>kvs. read_meta_pairs (unat n) rest d = Some kvs \<and> Meta z' = refilled (Meta z) kvs"
  proof (cases "Meta z")
    case None
    show ?thesis
    proof (cases "n > 0")
      case True
      with None loop have "meta_loop (unat n) rest d (z\<lparr>Meta := Some []\<rparr>) = Return (None, z', dc')"
        by simp
      from meta_loop_read [OF this, of "[]"] obtain kvs where
        "read_meta_pairs (unat n) rest d = Some kvs" "length kvs = unat n"
        "Meta z' = Some (assign_all kvs [])" by auto
      moreover from this True have "kvs \<noteq> []" by (auto simp: unat_pos32)
      ultimately show ?thesis by (simp add: refilled_def)
    next
      case False
      then have n0: "unat n = 0" by (simp add: unat_pos32)
      with None False loop have "z' = z" by (simp add: map_len_def)
      with None n0 show ?thesis by (simp add: refilled_def)
    qed
  next
    case (Some m)
    have "Meta ?z1 = Some []"
      using Some by (cases m) (simp_all add: map_len_def map_clear_Some)
    from meta_loop_read [OF loop this] obtain kvs where
      "read_meta_pairs (unat n) rest d = Some kvs" "Meta z' = Some (assign_all kvs [])" by auto
    with Some show ?thesis by (simp add: refilled_def)
  qed
  then show ?thesis by (auto simp: decoded_field_def dc)
qed

lemma field_Metrics_decoded:
  assumes "field_Metrics fo dc d z = Return (None, z', dc')"
  shows "decoded_field 10 fo dc d z z'"
proof -
  from assms obtain n rest where dc: "dc = WMap n # rest"
    by (cases dc; cases "hd dc") (auto simp: field_Metrics_def)
  let ?z1 = "if Metrics z = None \<and> n > 0 then z\<lparr>Metrics := Some []\<rparr>
             else if map_len (Metrics z) > 0 then z\<lparr>Metrics := map_clear (Metrics z)\<rparr> else z"
  have loop: "metrics_loop fo (unat n) rest d ?z1 = Return (None, z', dc')"
    using assms dc by (simp add: field_Metrics_def)
  have "\<exists>kvs. read_metric_pairs fo (unat n) rest d = Some kvs
          \<and> Metrics z' = refilled (Metrics z) kvs"
  proof (cases "Metrics z")
    case None
    show ?thesis
    proof (cases "n > 0")
      case True
      with None loop have
        "metrics_loop fo (unat n) rest d (z\<lparr>Metrics := Some []\<rparr>) = Return (None, z', dc')"
        by simp
      from metrics_loop_read [OF this, of "[]"] obtain kvs where
        "read_metric_pairs fo (unat n) rest d = Some kvs" "length kvs = unat n"
        "Metrics z' = Some (assign_all kvs [])" by auto
      moreover from this True have "kvs \<noteq> []" by (auto simp: unat_pos32)
      ultimately show ?thesis by (simp add: refilled_def)
    next
      case False
      then have n0: "unat n = 0" by (simp add: unat_pos32)
      with None False loop have "z' = z" by (simp add: map_len_def)
      with None n0 show ?thesis by (simp add: refilled_def)
    qed
  next
    case (Some m)
    have "Metrics ?z1 = Some []"
      using Some by (cases m) (simp_all add: map_len_def map_clear_Some)
    from metrics_loop_read [OF loop this] obtain kvs where
      "read_metric_pairs fo (unat n) rest d = Some kvs" "Metrics z' = Some (assign_all kvs [])"
      by auto
    with Some show ?thesis by (simp add: refilled_def)
  qed
  then show ?thesis by (auto simp: decoded_field_def dc)
qed

lemma step_decoded:
  assumes "k < 12" and "(span_fields ! k) fo dc d z = Return (None, z', dc')"
  shows "decoded_field k fo dc d z z'"
proof -
  from assms(1) have "k = 0 \<or> k = 1 \<or> k = 2 \<or> k = 3 \<or> k = 4 \<or> k = 5 \<or> k = 6 \<or> k = 7 \<or> k = 8
     \<or> k = 9 \<or> k = 10 \<or> k = 11" by (rule lt_12_cases)
  then consider "k \<in> {0, 1, 2, 11}" | "k \<in> {3, 4, 5, 6, 7, 8}" | "k = 9" | "k = 10"
    by auto
  then show ?thesis
  proof cases
    case 1
    with assms(2) show ?thesis
      by (auto simp: span_fields_def decoded_field_def decoded_string_def field_Service_def
          field_Name_def field_Resource_def field_Type_def split: outcome.splits prod.splits)
  next
    case 2
    with assms(2) show ?thesis
      by (auto simp: span_fields_def decoded_field_def field_TraceID_def field_SpanID_def
          field_ParentID_def field_Start_def field_Duration_def field_Error_def
          split: prod.splits)
  next
    case 3
    with assms(2) show ?thesis
      by (simp add: span_fields_def field_Meta_decoded)
  next
    case 4
    with assms(2) show ?thesis
      by (simp add: span_fields_def field_Metrics_decoded)
  qed
qed

lemma decoded_field_result:
  "same_field k a b \<Longrightarrow> decoded_field k fo dc d p b \<Longrightarrow> decoded_field k fo dc d p a"
  by (auto simp: decoded_field_def same_field_def decoded_string_def
      split: if_splits list.splits wire.splits option.splits prod.splits outcome.splits)

lemma decoded_field_prior:
  "same_field k p q \<Longrightarrow> decoded_field k fo dc d p a \<Longrightarrow> decoded_field k fo dc d q a"
  by (auto simp: decoded_field_def same_field_def decoded_string_def
      split: if_splits list.splits wire.splits option.splits prod.splits outcome.splits)

lemma prefix_decoded:
  assumes "k \<le> 12" and "run_fields (take k span_fields) fo dc d z = Return (None, zk, dck)"
    and "j < k"
  shows "\<exists>zj dcj. run_fields (take j span_fields) fo dc d z = Return (None, zj, dcj)
           \<and> decoded_field j fo dcj d z zk"
  using assms
proof (induction k arbitrary: zk dck)
  case 0
  then show ?case by simp
next
  case (Suc k)
  have k: "k < 12" using Suc.prems(1) by simp
  then have split: "take (Suc k) span_fields = take k span_fields @ [span_fields ! k]"
    by (simp add: take_Suc_conv_app_nth length_span_fields)
  from Suc.prems(2) obtain z1 dc1 where
    pre: "run_fields (take k span_fields) fo dc d z = Return (None, z1, dc1)" and
    st: "(span_fields ! k) fo dc1 d z1 = Return (None, zk, dck)"
    unfolding split run_fields_append
    by (auto split: outcome.splits option.splits)
  show ?case
  proof (cases "j = k")
    case True
    have "decoded_field k fo dc1 d z1 zk" using k st by (rule step_decoded)
    moreover have "same_field k z1 z"
      using prefix_frame [OF _ pre, of k] k by simp
    ultimately have "decoded_field k fo dc1 d z zk"
      by (rule decoded_field_prior [rotated])
    with pre True show ?thesis by blast
  next
    case False
    then have jk: "j < k" using Suc.prems(3) by simp
    from Suc.IH [OF _ pre jk] k obtain zj dcj where
      r: "run_fields (take j span_fields) fo dc d z = Return (None, zj, dcj)" and
      dj: "decoded_field j fo dcj d z z1" by auto
    have "same_field j zk z1" using step_frame [OF k st] False by simp
    then have "decoded_field j fo dcj d z zk"
      using dj by (rule decoded_field_result)
    with r show ?thesis by blast
  qed
qed

text \<open>
  C10, as amended. Let the arity check pass, let fields \<open>0 .. k-1\<close> decode without
  error, leaving the span \<open>zk\<close>, and let the block of field \<open>k\<close> return an error. Then
  the span decode returns that error, and nothing is rolled back: every field \<open>j\<close> before
  \<open>k\<close> holds the value decoded from the new payload, that is the value its decoder
  returns on the reader as the fields before \<open>j\<close> left it (\<open>decoded_field\<close>), and every
  field after \<open>k\<close> holds the value it had before the call. Field \<open>k\<close> itself is not kept:
  a numeric field is set to 0 and a dictionary-string field to the empty string (or to
  dictionary entry 0 when the index could not be read at all); nothing is promised for
  Meta and Metrics when they are the failing field.
\<close>

theorem C10_partial_overwrite:
  assumes "k < 12"
    and "run_fields (take k span_fields) fo dc d z = Return (None, zk, dck)"
    and "(span_fields ! k) fo dck d zk = Return (Some e, z', dc')"
  shows "Span_DecodeMsgArray fo (WArray 12 # dc) d z = Return (Some e, z', dc')
       \<and> (\<forall>j<k. \<exists>zj dcj.
             run_fields (take j span_fields) fo dc d z = Return (None, zj, dcj)
             \<and> decoded_field j fo dcj d z z')
       \<and> (\<forall>j<k. same_field j z' zk)
       \<and> (\<forall>j>k. same_field j z' z)
       \<and> failed_field k d z'"
proof -
  have "run_fields span_fields fo dc d z = Return (Some e, z', dc')"
    using assms by (intro run_fields_fail_at) (simp_all add: length_span_fields)
  then have 1: "Span_DecodeMsgArray fo (WArray 12 # dc) d z = Return (Some e, z', dc')"
    by (simp add: Span_DecodeMsgArray_def spanPropertyCount_def)
  have 2: "same_field j z' zk" if "j < k" for j
    using step_frame [OF assms(1,3)] that by simp
  have 3: "same_field j z' z" if "k < j" for j
  proof -
    have "same_field j z' zk" using step_frame [OF assms(1,3)] that by simp
    moreover have "same_field j zk z"
      using prefix_frame [OF _ assms(2)] assms(1) that by simp
    ultimately show ?thesis by (rule same_field_trans)
  qed
  have 4: "failed_field k d z'"
    using assms(1,3) by (rule failed_step)
  have 5: "\<exists>zj dcj. run_fields (take j span_fields) fo dc d z = Return (None, zj, dcj)
             \<and> decoded_field j fo dcj d z z'" if "j < k" for j
  proof -
    from prefix_decoded [OF _ assms(2) that] assms(1) obtain zj dcj where
      r: "run_fields (take j span_fields) fo dc d z = Return (None, zj, dcj)" and
      dj: "decoded_field j fo dcj d z zk" by auto
    have "decoded_field j fo dcj d z z'"
      using 2 [OF that] dj by (rule decoded_field_result)
    with r show ?thesis by blast
  qed
  from 1 2 3 4 5 show ?thesis by blast
qed

text \<open>
  C10 as stated fails: the record below fails at field 3 (TraceID, a string on the wire
  where an integer is expected); the recycled span had TraceID 7 and is left with
  TraceID 0, so field \<open>k\<close> did not retain its prior value.
\<close>

theorem C10_counterexample:
  "Span_DecodeMsgArray int_float_ops [WArray 12, WInt 0, WInt 0, WInt 0, WStr ''x''] [''a'']
      (new_Span\<lparr>TraceID := 7\<rparr>)
     = Return (Some (TypeError IntType StrType),
         new_Span\<lparr>Service := ''a'', Name := ''a'', Resource := ''a'', TraceID := 0\<rparr>,
         [WStr ''x''])
   \<and> \<not> same_field 3
         (new_Span\<lparr>Service := ''a'', Name := ''a'', Resource := ''a'', TraceID := 0\<rparr> :: int Span)
         (new_Span\<lparr>TraceID := 7\<rparr>)"
  by code_simp

theorem C10_witness:
  "Span_DecodeMsgArray int_float_ops
      [WArray 12, WInt 1, WInt 0, WInt 1, WUint 5, WStr ''x''] [''a'', ''b'']
      (new_Span\<lparr>TraceID := 7, SpanID := 8, Type := ''old''\<rparr>)
     = Return (Some (TypeError IntType StrType),
         new_Span\<lparr>Service := ''b'', Name := ''a'', Resource := ''b'', TraceID := 5,
           SpanID := 0, Type := ''old''\<rparr>,
         [WStr ''x''])"
proof -
  have h1: "(4::nat) < 12" by simp
  have h2: "run_fields (take 4 span_fields) int_float_ops
      [WInt 1, WInt 0, WInt 1, WUint 5, WStr ''x''] [''a'', ''b'']
      (new_Span\<lparr>TraceID := 7, SpanID := 8, Type := ''old''\<rparr>)
    = Return (None,
        new_Span\<lparr>Service := ''b'', Name := ''a'', Resource := ''b'', TraceID := 5,
          SpanID := 8, Type := ''old''\<rparr>,
        [WStr ''x''])"
    by code_simp
  have h3: "(span_fields ! 4) int_float_ops [WStr ''x''] [''a'', ''b'']
       (new_Span\<lparr>Service := ''b'', Name := ''a'', Resource := ''b'', TraceID := 5,
          SpanID := 8, Type := ''old''\<rparr>)
    = Return (Some (TypeError IntType StrType),
        new_Span\<lparr>Service := ''b'', Name := ''a'', Resource := ''b'', TraceID := 5,
          SpanID := 0, Type := ''old''\<rparr>,
        [WStr ''x''])"
    by code_simp
  show ?thesis using C10_partial_overwrite [OF h1 h2 h3] by simp
qed

subsection \<open>The batch decoder\<close>

lemma dict_loop_nil:
  "dict_loop is (WNil # dc) dict = (None, fold (\<lambda>i d. d[i := []]) is dict, WNil # dc)"
  by (induction "is" arbitrary: dict) simp_all

lemma dict_loop_unsupported:
  assumes "NextType (w # dc) = (t, None)" and "t \<noteq> NilType" "t \<noteq> BinType" "t \<noteq> StrType"
  shows "dict_loop (i # is) (w # dc) dict = (Some (ErrDictValue i), dict, w # dc)"
  using assms by (cases t) simp_all

lemma Traces_nil_dictionary_entry:
  "Traces_DecodeMsgArray fo (WArray n # WArray sz # WNil # dc) z
     = Return (Some (TypeError ArrayType NilType), z, WNil # dc)"
  by (simp add: Traces_DecodeMsgArray_def dict_loop_nil badPrefix_def)

text \<open>
  C7. A nil dictionary entry ought to become the empty string and the entries after it
  ought to be decoded by their own wire types. The nil case of the dictionary loop
  stores the empty string but never reads the nil object off the stream, so every later
  entry is seen as that same nil: for the dictionary \<open>[nil, "a"]\<close> the loop yields
  \<open>["", ""]\<close>, the string \<open>"a"\<close> is still unread behind the nil, and the batch decode then
  fails with a type error where it expects the array of traces.
\<close>

theorem C7_nil_entry_not_consumed:
  "dict_loop [0, 1] [WNil, WStr ''a'', WArray 0 :: int wire] [[], []]
     = (None, [[], []], [WNil, WStr ''a'', WArray 0])
   \<and> Traces_DecodeMsgArray int_float_ops [WArray 2, WArray 2, WNil, WStr ''a'', WArray 0]
       nil_slice
     = Return (Some (TypeError ArrayType NilType), nil_slice, [WNil, WStr ''a'', WArray 0])"
  by code_simp

lemma parseStringDict_wint:
  "uint n < 2 ^ 63 \<Longrightarrow> uint n < int (length d) \<Longrightarrow>
     parseStringDict (wint b n # dc) d = Return (d ! nat (uint n), None, dc)"
  by (simp add: wint_def parseStringDict_def ReadInt_def gt_MaxInt64 sint_small64)

lemma parseUint64_wint: "parseUint64 (wint b n # dc) = (n, None, dc)"
  by (simp add: wint_def parseUint64_def)

lemma parseInt64_wint: "uint n < 2 ^ 63 \<Longrightarrow> parseInt64 (wint b n # dc) = (n, None, dc)"
  by (simp add: wint_def parseInt64_def castInt64_def gt_MaxInt64)

lemma parseInt32_wint:
  assumes "uint n < 2 ^ 31"
  shows "parseInt32 (wint b n # dc) = (ucast n, None, dc)"
proof (cases b)
  case True
  with assms show ?thesis by (simp add: wint_def parseInt32_WUint)
next
  case False
  have s: "sint n = uint n" using assms by (intro sint_small64) simp
  have a: "uint n < 2147483648" using assms by simp
  have z: "0 \<le> uint n" by simp
  have "\<not> (sint n > 2147483647 \<or> sint n < - 2147483648)"
    unfolding s using a z by linarith
  with False show ?thesis
    by (simp add: wint_def parseInt32_def ReadInt32_def)
qed

lemma dict_loop_wstr:
  "dict_loop (i # is) (wstr b s # dc) dict = dict_loop is dc (dict[i := s])"
  by (simp add: wstr_def)

lemma upt_0_1: "[0..<1] = [0]" by simp
lemma upt_0_2: "[0..<2] = [0, 1]" by (simp add: upt_rec)
lemma replicate_2: "replicate 2 x = [x, x]" by (simp add: numeral_2_eq_2)

lemma span_example:
  "Span_DecodeMsgArray fo
     (WArray 12 # wint b0 0 # wint b1 1 # wint b2 0 # wint b3 1 # wint b4 2 # wint b5 0
       # wint b6 1000 # wint b7 500 # wint b8 0 # WMap 0 # WMap 0 # wint b9 1 # dc)
     [''web'', ''GET /''] new_Span
   = Return (None,
       \<lparr>Service = ''web'', Name = ''GET /'', Resource = ''web'',
        TraceID = 1, SpanID = 2, ParentID = 0, Start = 1000, Duration = 500,
        Error = 0, Meta = None, Metrics = None, Type = ''GET /''\<rparr>, dc)"
  by (simp add: Span_DecodeMsgArray_def spanPropertyCount_def span_fields_def
      field_Service_def field_Name_def field_Resource_def field_TraceID_def field_SpanID_def
      field_ParentID_def field_Start_def field_Duration_def field_Error_def field_Meta_def
      field_Metrics_def field_Type_def parseStringDict_wint parseUint64_wint parseInt64_wint
      parseInt32_wint map_len_def new_Span_def)

lemma field_Meta_empty:
  "field_Meta fo (WMap 0 # dc) d z = Return (None, z\<lparr>Meta := refilled (Meta z) []\<rparr>, dc)"
  using field_Meta_pairs [of d "[]" "[]" fo dc z] by simp

lemma field_Metrics_empty:
  "field_Metrics fo (WMap 0 # dc) d z
     = Return (None, z\<lparr>Metrics := refilled (Metrics z) []\<rparr>, dc)"
  using field_Metrics_pairs [of fo d "[]" "[]" dc z] by simp

lemma map_len_refilled_nil: "map_len (refilled prior []) = 0"
  by (simp add: refilled_def map_len_def assign_all_def)

lemma span_example_any:
  "Span_DecodeMsgArray fo
     (WArray 12 # wint b0 0 # wint b1 1 # wint b2 0 # wint b3 1 # wint b4 2 # wint b5 0
       # wint b6 1000 # wint b7 500 # wint b8 0 # WMap 0 # WMap 0 # wint b9 1 # dc)
     [''web'', ''GET /''] s0
   = Return (None,
       s0\<lparr>Service := ''web'', Name := ''GET /'', Resource := ''web'',
          TraceID := 1, SpanID := 2, ParentID := 0, Start := 1000, Duration := 500,
          Error := 0, Meta := refilled (Meta s0) [], Metrics := refilled (Metrics s0) [],
          Type := ''GET /''\<rparr>, dc)"
  by (simp add: Span_DecodeMsgArray_def spanPropertyCount_def span_fields_def
      field_Service_def field_Name_def field_Resource_def field_TraceID_def field_SpanID_def
      field_ParentID_def field_Start_def field_Duration_def field_Error_def field_Meta_empty
      field_Metrics_empty field_Type_def parseStringDict_wint parseUint64_wint parseInt64_wint
      parseInt32_wint)

lemma take_1_update: "Suc 0 \<le> length xs \<Longrightarrow> take (Suc 0) (xs[0 := x]) = [x]"
  by (cases xs) simp_all

lemma replicate_1_update: "(replicate (Suc 0) y)[0 := x] = [x]"
  by simp

lemma batch_example_any:
  "\<exists>z' t s.
     Traces_DecodeMsgArray fo
       [WArray 2, WArray 2, wstr s0 ''web'', wstr s1 ''GET /'', WArray 1, WArray 1, WArray 12,
        wint b0 0, wint b1 1, wint b2 0, wint b3 1, wint b4 2, wint b5 0, wint b6 1000,
        wint b7 500, wint b8 0, WMap 0, WMap 0, wint b9 1] z
       = Return (None, z', [])
     \<and> elems z' = [t] \<and> elems t = [Some s]
     \<and> Service s = ''web'' \<and> Name s = ''GET /'' \<and> Resource s = ''web''
     \<and> TraceID s = 1 \<and> SpanID s = 2 \<and> ParentID s = 0
     \<and> Start s = 1000 \<and> Duration s = 500 \<and> Error s = 0
     \<and> map_len (Meta s) = 0 \<and> map_len (Metrics s) = 0 \<and> Type s = ''GET /''"
  by (auto simp: Traces_DecodeMsgArray_def upt_0_1 upt_0_2 replicate_2 dict_loop_wstr
      nil_slice_def cap_def make_slice_def span_example_any elems_def take_1_update
      map_len_refilled_nil
      simp del: dict_loop.simps(2))

lemma batch_example_fresh:
  "Traces_DecodeMsgArray fo
     [WArray 2, WArray 2, wstr s0 ''web'', wstr s1 ''GET /'', WArray 1, WArray 1, WArray 12,
      wint b0 0, wint b1 1, wint b2 0, wint b3 1, wint b4 2, wint b5 0, wint b6 1000,
      wint b7 500, wint b8 0, WMap 0, WMap 0, wint b9 1] nil_slice
     = Return (None,
         \<lparr>arr = [\<lparr>arr = [Some \<lparr>Service = ''web'', Name = ''GET /'', Resource = ''web'',
                   TraceID = 1, SpanID = 2, ParentID = 0, Start = 1000, Duration = 500,
                   Error = 0, Meta = None, Metrics = None, Type = ''GET /''\<rparr>],
                 len = 1\<rparr>],
          len = 1\<rparr>, [])"
  by (simp add: Traces_DecodeMsgArray_def upt_0_1 upt_0_2 replicate_2 dict_loop_wstr
      nil_slice_def cap_def make_slice_def span_example del: dict_loop.simps(2))

text \<open>
  C8. The payload made of the dictionary \<open>["web", "GET /"]\<close> and one trace with the one
  span record \<open>[0,1,0, 1,2,0, 1000,500,0, {}, {}, 1]\<close> decodes without error, into
  whatever batch the caller passes (empty, or recycled with any spans in it), to exactly
  one trace with one span: Service "web", Name "GET /", Resource "web", TraceID 1,
  SpanID 2, ParentID 0, Start 1000, Duration 500, Error 0, Meta and Metrics empty, Type
  "GET /". It does so whichever of the signed and unsigned encodings each integer comes
  in, and whether each string is a str or a bin. Decoded into an empty batch the result
  is the batch written out in the second part.
\<close>

theorem C8_end_to_end:
  "(\<exists>z' t s.
     Traces_DecodeMsgArray fo
       [WArray 2, WArray 2, wstr s0 ''web'', wstr s1 ''GET /'', WArray 1, WArray 1, WArray 12,
        wint b0 0, wint b1 1, wint b2 0, wint b3 1, wint b4 2, wint b5 0, wint b6 1000,
        wint b7 500, wint b8 0, WMap 0, WMap 0, wint b9 1] z
       = Return (None, z', [])
     \<and> elems z' = [t] \<and> elems t = [Some s]
     \<and> Service s = ''web'' \<and> Name s = ''GET /'' \<and> Resource s = ''web''
     \<and> TraceID s = 1 \<and> SpanID s = 2 \<and> ParentID s = 0
     \<and> Start s = 1000 \<and> Duration s = 500 \<and> Error s = 0
     \<and> map_len (Meta s) = 0 \<and> map_len (Metrics s) = 0 \<and> Type s = ''GET /'')
   \<and> Traces_DecodeMsgArray fo
     [WArray 2, WArray 2, wstr s0 ''web'', wstr s1 ''GET /'', WArray 1, WArray 1, WArray 12,
      wint b0 0, wint b1 1, wint b2 0, wint b3 1, wint b4 2, wint b5 0, wint b6 1000,
      wint b7 500, wint b8 0, WMap 0, WMap 0, wint b9 1] nil_slice
     = Return (None,
         \<lparr>arr = [\<lparr>arr = [Some \<lparr>Service = ''web'', Name = ''GET /'', Resource = ''web'',
                   TraceID = 1, SpanID = 2, ParentID = 0, Start = 1000, Duration = 500,
                   Error = 0, Meta = None, Metrics = None, Type = ''GET /''\<rparr>],
                 len = 1\<rparr>],
          len = 1\<rparr>, [])"
  using batch_example_any [of fo s0 s1 b0 b1 b2 b3 b4 b5 b6 b7 b8 b9 z]
    batch_example_fresh [of fo s0 s1 b0 b1 b2 b3 b4 b5 b6 b7 b8 b9]
  by (rule conjI)

text \<open>
  C9, as amended. The batch decoder requires the top-level wire value to be an array
  header and fails on anything else, but it does not look at the element count the
  header declares: whatever the count, it reads the dictionary and then the traces from
  the objects that follow, exactly as for a count of 2.
\<close>

theorem C9_top_level_count_ignored:
  "Traces_DecodeMsgArray fo (WArray n # dc) z = Traces_DecodeMsgArray fo (WArray 2 # dc) z
   \<and> (getType w \<noteq> ArrayType \<longrightarrow>
        Traces_DecodeMsgArray fo (w # dc) z = Return (Some (badPrefix ArrayType w), z, w # dc))
   \<and> Traces_DecodeMsgArray fo [] z = Return (Some EOF, z, [])"
  by (cases w) (simp_all add: Traces_DecodeMsgArray_def)

theorem C9_witness:
  "Traces_DecodeMsgArray int_float_ops [WArray 7, WArray 1, WStr ''a'', WArray 0] nil_slice
     = Traces_DecodeMsgArray int_float_ops [WArray 2, WArray 1, WStr ''a'', WArray 0] nil_slice
   \<and> Traces_DecodeMsgArray int_float_ops [WMap 2, WArray 1, WStr ''a'', WArray 0] nil_slice
     = Return (Some (TypeError ArrayType MapType), nil_slice,
         [WMap 2, WArray 1, WStr ''a'', WArray 0])"
  using C9_top_level_count_ignored
    [of int_float_ops 7 "[WArray 1, WStr ''a'', WArray 0]" nil_slice "WMap 2"]
  by (simp add: badPrefix_def)

text \<open>
  C9 as stated fails: a top-level array that declares 3 elements, the dictionary, the
  traces and one more, decodes successfully as a batch; the third element is left
  unread.
\<close>

theorem C9_counterexample:
  "Traces_DecodeMsgArray int_float_ops [WArray 3, WArray 1, WStr ''a'', WArray 0, WNil]
     nil_slice
     = Return (None, nil_slice, [WNil])"
  by code_simp

end
